theory Spec2Isabelle
  imports Complex_Main
begin

section \<open>Python values: exceptions and double-precision floats\<close>

text \<open>
  The scanner and the executor compute with Python \<^verbatim>\<open>int\<close> (unbounded, modelled as
  \<^typ>\<open>int\<close>) and Python \<^verbatim>\<open>float\<close> (IEEE 754 binary64). A finite double is modelled
  by the rational number it denotes; every arithmetic operation computes the exact
  rational result and rounds it to the nearest double, ties to even. Exceptions are values
  of a sum type, \<open>Inl\<close> carrying the exception.
\<close>

datatype py_error =
    ZeroDivisionError
  | OverflowError
  | ValueError
  | KeyError
  | IndexError
  | Raised string  \<comment> \<open>an exception of an external library call (RPC, signing), with its message\<close>

definition bind :: "py_error + 'a \<Rightarrow> ('a \<Rightarrow> py_error + 'b) \<Rightarrow> py_error + 'b" where
  "bind r f = (case r of Inl e \<Rightarrow> Inl e | Inr v \<Rightarrow> f v)"

text \<open>\<open>collect f xs\<close> is a \<^verbatim>\<open>for x in xs\<close> loop whose body appends the items \<open>f x\<close> to one
  result list; the first exception leaves the loop.\<close>

fun collect :: "('a \<Rightarrow> py_error + 'b list) \<Rightarrow> 'a list \<Rightarrow> py_error + 'b list" where
  "collect f [] = Inr []"
| "collect f (x # xs) =
     (case f x of
        Inl e \<Rightarrow> Inl e
      | Inr ys \<Rightarrow> (case collect f xs of Inl e \<Rightarrow> Inl e | Inr zs \<Rightarrow> Inr (ys @ zs)))"

subsection \<open>Rounding to binary64\<close>

definition round_half_even :: "rat \<Rightarrow> int" where
  "round_half_even v =
     (let n = \<lfloor>v\<rfloor>; r = v - of_int n
      in if r < 1 / 2 then n else if 1 / 2 < r then n + 1 else if even n then n else n + 1)"

function bit_length :: "int \<Rightarrow> int" where
  "bit_length n = (if n \<le> 0 then 0 else 1 + bit_length (n div 2))"
  by pat_completeness auto
termination
  by (relation "measure nat") auto

declare bit_length.simps [simp del]

text \<open>\<open>ilog2 t\<close> is \<open>\<lfloor>log\<^sub>2 t\<rfloor>\<close> for a positive rational \<open>t\<close>.\<close>

definition ilog2 :: "rat \<Rightarrow> int" where
  "ilog2 t =
     (case quotient_of t of (p, q) \<Rightarrow>
        let d = bit_length p - bit_length q
        in if 2 powi d \<le> t then d else d - 1)"

text \<open>The exponent of the last mantissa bit: 53 significant bits, and no finer than the
  subnormal spacing \<open>2\<^sup>-\<^sup>1\<^sup>0\<^sup>7\<^sup>4\<close>.\<close>

definition quantum :: "rat \<Rightarrow> int" where
  "quantum t = max (ilog2 \<bar>t\<bar> - 52) (- 1074)"

text \<open>Round to nearest, ties to even, with the exponent unbounded above.\<close>

definition fl :: "rat \<Rightarrow> rat" where
  "fl t = (if t = 0 then 0
           else of_int (round_half_even (t / 2 powi quantum t)) * 2 powi quantum t)"

datatype pyfloat = Fin rat | PInf | NInf | NaN

text \<open>The result of an operation whose exact value is \<open>t\<close>: a rounded value of magnitude
  \<open>2\<^sup>1\<^sup>0\<^sup>2\<^sup>4\<close> or more overflows to an infinity. Zero is modelled without a sign: none of
  the modelled operations observes the sign of a zero (Python's float division raises on
  any zero divisor).\<close>

definition to_double :: "rat \<Rightarrow> pyfloat" where
  "to_double t =
     (let r = fl t
      in if 2 ^ 1024 \<le> r then PInf else if r \<le> - (2 ^ 1024) then NInf else Fin r)"

text \<open>\<^verbatim>\<open>float(i)\<close>, also the implicit conversion of the \<^verbatim>\<open>int\<close> operand of a mixed
  operation: correctly rounded, \<^verbatim>\<open>OverflowError\<close> when the integer is too large.\<close>

definition float_of_int :: "int \<Rightarrow> py_error + pyfloat" where
  "float_of_int i =
     (case to_double (of_int i) of Fin r \<Rightarrow> Inr (Fin r) | _ \<Rightarrow> Inl OverflowError)"

text \<open>The sign of a float that is not a NaN: \<open>-1\<close>, \<open>0\<close> or \<open>1\<close>.\<close>

fun fsgn :: "pyfloat \<Rightarrow> int" where
  "fsgn (Fin a) = sgn \<lfloor>sgn a\<rfloor>"
| "fsgn PInf = 1"
| "fsgn NInf = - 1"
| "fsgn NaN = 0"

fun fneg :: "pyfloat \<Rightarrow> pyfloat" where
  "fneg (Fin a) = Fin (- a)"
| "fneg PInf = NInf"
| "fneg NInf = PInf"
| "fneg NaN = NaN"

fun fadd :: "pyfloat \<Rightarrow> pyfloat \<Rightarrow> pyfloat" where
  "fadd (Fin a) (Fin b) = to_double (a + b)"
| "fadd NaN y = NaN"
| "fadd x NaN = NaN"
| "fadd PInf NInf = NaN"
| "fadd NInf PInf = NaN"
| "fadd PInf y = PInf"
| "fadd NInf y = NInf"
| "fadd x PInf = PInf"
| "fadd x NInf = NInf"

definition fsub :: "pyfloat \<Rightarrow> pyfloat \<Rightarrow> pyfloat" where
  "fsub x y = fadd x (fneg y)"

fun fmul :: "pyfloat \<Rightarrow> pyfloat \<Rightarrow> pyfloat" where
  "fmul (Fin a) (Fin b) = to_double (a * b)"
| "fmul NaN y = NaN"
| "fmul x NaN = NaN"
| "fmul x y =
     (let s = fsgn x * fsgn y in if s = 0 then NaN else if 0 < s then PInf else NInf)"

text \<open>The IEEE quotient for a divisor that is not zero.\<close>

fun fquot :: "pyfloat \<Rightarrow> pyfloat \<Rightarrow> pyfloat" where
  "fquot (Fin a) (Fin b) = to_double (a / b)"
| "fquot NaN y = NaN"
| "fquot x NaN = NaN"
| "fquot (Fin a) y = Fin 0"
| "fquot x (Fin b) = (if 0 < fsgn x * fsgn (Fin b) then PInf else NInf)"
| "fquot x y = NaN"

text \<open>Python's \<^verbatim>\<open>x / y\<close> on floats raises \<^verbatim>\<open>ZeroDivisionError\<close> for a zero divisor.\<close>

definition fdiv :: "pyfloat \<Rightarrow> pyfloat \<Rightarrow> py_error + pyfloat" where
  "fdiv x y = (if y = Fin 0 then Inl ZeroDivisionError else Inr (fquot x y))"

text \<open>The array library's \<^verbatim>\<open>x / y\<close> on float64 values never raises: a zero divisor gives an
  infinity or a NaN. The zero divisors of the modelled code are sums with a reserve
  converted from an integer, which are \<open>+0.0\<close>.\<close>

definition np_div :: "pyfloat \<Rightarrow> pyfloat \<Rightarrow> pyfloat" where
  "np_div x y =
     (if y = Fin 0
      then (if x = NaN \<or> fsgn x = 0 then NaN else if 0 < fsgn x then PInf else NInf)
      else fquot x y)"

text \<open>\<^verbatim>\<open>x > y\<close> on floats: false when either side is a NaN.\<close>

fun fgt :: "pyfloat \<Rightarrow> pyfloat \<Rightarrow> bool" where
  "fgt NaN y = False"
| "fgt x NaN = False"
| "fgt (Fin a) (Fin b) = (b < a)"
| "fgt PInf y = (y \<noteq> PInf)"
| "fgt x NInf = (x \<noteq> NInf)"
| "fgt x y = False"

definition py_trunc :: "rat \<Rightarrow> int" where
  "py_trunc a = (if 0 \<le> a then \<lfloor>a\<rfloor> else \<lceil>a\<rceil>)"

text \<open>\<^verbatim>\<open>int(x)\<close> of a float truncates toward zero; an infinity raises \<^verbatim>\<open>OverflowError\<close>,
  a NaN raises \<^verbatim>\<open>ValueError\<close>.\<close>

fun py_int :: "pyfloat \<Rightarrow> py_error + int" where
  "py_int (Fin a) = Inr (py_trunc a)"
| "py_int PInf = Inl OverflowError"
| "py_int NInf = Inl OverflowError"
| "py_int NaN = Inl ValueError"

text \<open>A float literal of the source, such as \<^verbatim>\<open>0.003\<close>: the nearest double.\<close>

definition lit :: "rat \<Rightarrow> pyfloat" where
  "lit d = to_double d"

section \<open>The scanner (\<^verbatim>\<open>scanner/core/scanner.py\<close>)\<close>

subsection \<open>Data\<close>

text \<open>The dataclass \<^verbatim>\<open>ArbitrageRoute\<close>.\<close>

record arbitrage_route =
  token :: string
  amount_in :: int
  dex_routers :: "string list"
  swap_data :: "string list"
  expected_profit :: int
  gas_cost :: int
  net_profit :: int
  timestamp :: int

text \<open>A pool is a Python dict read with \<^verbatim>\<open>.get\<close>; a missing key is \<open>None\<close>. The fee of a
  V2-style pool is the float of its DEX; the fee of a V3-style pool is an integer fee tier
  and such a pool has no reserves.\<close>

datatype pynum = PyInt int | PyFloat pyfloat

record pool =
  pool_address :: "string option"
  token0 :: "string option"
  token1 :: "string option"
  reserve0 :: "int option"
  reserve1 :: "int option"
  tvl :: "int option"
  pool_fee :: "pynum option"

text \<open>An entry of \<^verbatim>\<open>self.dex_configs\<close>; the entry of \<^verbatim>\<open>uniswap_v3\<close> has a list
  \<^verbatim>\<open>'fees'\<close> and no key \<^verbatim>\<open>'fee'\<close>.\<close>

record dex_config =
  router :: string
  factory :: string
  dex_fee :: "pyfloat option"
  dex_fees :: "int list"

definition dex_configs :: "(string \<times> dex_config) list" where
  "dex_configs =
    [(''uniswap_v2'',
       \<lparr>router = ''0x4752ba5DBc23f44D87826276BF6Fd6b1C372aD24'',
        factory = ''0x8909Dc15e40173Ff4699343b6eB8132c65e18eC6'',
        dex_fee = Some (lit (3 / 1000)), dex_fees = []\<rparr>),
     (''uniswap_v3'',
       \<lparr>router = ''0x2626664c2603336E57B271c5C0b26F421741e481'',
        factory = ''0x33128a8fC17869897dcE68Ed026d694621f6FDfD'',
        dex_fee = None, dex_fees = [500, 3000, 10000]\<rparr>),
     (''sushiswap'',
       \<lparr>router = ''0x6BDED42c6DA8FBf0d2bA55B2fa120C5e0c8D7891'',
        factory = ''0x71524B4f93c58fcbF659783284E38825f0622859'',
        dex_fee = Some (lit (3 / 1000)), dex_fees = []\<rparr>),
     (''aerodrome'',
       \<lparr>router = ''0xcF77a3Ba9A5CA399B7c97c74d54e5b1Beb874E43'',
        factory = ''0x420DD381b31aEf6683db6B902084cB0FFECe40Da'',
        dex_fee = Some (lit (3 / 1000)), dex_fees = []\<rparr>),
     (''baseswap'',
       \<lparr>router = ''0x327Df1E6de05895d2ab08513aaDD9313Fe505d86'',
        factory = ''0xFDa619b6d20975be80A10332cD39b9a4b0FAa8BB'',
        dex_fee = Some (lit (25 / 10000)), dex_fees = []\<rparr>)]"

text \<open>The fields of \<^verbatim>\<open>Config\<close> that the scanner and the executor read.\<close>

record config =
  min_profit_threshold :: int
  max_gas_price_gwei :: int
  use_gpu :: bool
  chain_id :: int

text \<open>\<^verbatim>\<open>d.get(key, default)\<close>.\<close>

definition get_or :: "'a option \<Rightarrow> 'a \<Rightarrow> 'a" where
  "get_or v d = (case v of None \<Rightarrow> d | Some x \<Rightarrow> x)"

subsection \<open>The swap formula\<close>

text \<open>
  \<^verbatim>\<open>
  def _calculate_swap_output(self, amount_in, reserve_in, reserve_out, fee):
      if reserve_in == 0 or reserve_out == 0:
          return 0
      amount_in_with_fee = amount_in * (1 - fee)
      numerator = amount_in_with_fee * reserve_out
      denominator = reserve_in + amount_in_with_fee
      return int(numerator / denominator)
  \<close>
  The amounts and reserves are Python integers and the fee is a float (\<^verbatim>\<open>0.003\<close>,
  \<^verbatim>\<open>0.0025\<close> in \<^verbatim>\<open>dex_configs\<close>), so every operation is a float operation on the
  converted integer.
\<close>

definition calculate_swap_output :: "int \<Rightarrow> int \<Rightarrow> int \<Rightarrow> pyfloat \<Rightarrow> py_error + int" where
  "calculate_swap_output amount reserve_in reserve_out fee =
     (if reserve_in = 0 \<or> reserve_out = 0 then Inr 0
      else
        bind (float_of_int amount) (\<lambda>a.
        let amount_in_with_fee = fmul a (fsub (Fin 1) fee) in
        bind (float_of_int reserve_out) (\<lambda>ro.
        let numerator = fmul amount_in_with_fee ro in
        bind (float_of_int reserve_in) (\<lambda>ri.
        let denominator = fadd ri amount_in_with_fee in
        bind (fdiv numerator denominator) py_int))))"

text \<open>
  \<^verbatim>\<open>_calculate_swap_gpu\<close>: the same formula on float64 array elements, with no guard on
  the reserves and no conversion of the result to an integer.
\<close>

definition calculate_swap_gpu :: "pyfloat \<Rightarrow> pyfloat \<Rightarrow> pyfloat \<Rightarrow> pyfloat \<Rightarrow> pyfloat" where
  "calculate_swap_gpu amount reserve_in reserve_out fee =
     (let amount_in_with_fee = fmul amount (fsub (Fin 1) fee);
          numerator = fmul amount_in_with_fee reserve_out;
          denominator = fadd reserve_in amount_in_with_fee
      in np_div numerator denominator)"

subsection \<open>Route enumeration on the CPU\<close>

text \<open>
  \<^verbatim>\<open>_check_arbitrage_opportunity\<close>. The amount is \<^verbatim>\<open>int(1e18)\<close>; the fee of the first
  swap is \<^verbatim>\<open>dex1_config['fee']\<close> (a \<^verbatim>\<open>KeyError\<close> for a DEX without that key), the fee
  of the second is \<^verbatim>\<open>dex2_config.get('fee', 0.003)\<close>. \<open>keccak_hex\<close> stands for
  \<^verbatim>\<open>Web3.keccak(text=...).hex().encode()\<close> and \<open>now\<close> for the reading of \<^verbatim>\<open>time.time()\<close>.
\<close>

definition encode_swap_data :: "(string \<Rightarrow> string) \<Rightarrow> pool \<Rightarrow> string" where
  "encode_swap_data keccak_hex p = keccak_hex (get_or (pool_address p) [])"

definition check_arbitrage_opportunity ::
  "(string \<Rightarrow> string) \<Rightarrow> rat \<Rightarrow> string \<Rightarrow> pool \<Rightarrow> pool \<Rightarrow> dex_config \<Rightarrow> dex_config
     \<Rightarrow> py_error + arbitrage_route option" where
  "check_arbitrage_opportunity keccak_hex now tok pool1 pool2 dex1_config dex2_config =
     (let amount = 10 ^ 18 in
      bind (case dex_fee dex1_config of None \<Rightarrow> Inl KeyError | Some f \<Rightarrow> Inr f) (\<lambda>fee1.
      bind (if Some tok = token0 pool1
            then calculate_swap_output amount
                   (get_or (reserve0 pool1) 0) (get_or (reserve1 pool1) 0) fee1
            else calculate_swap_output amount
                   (get_or (reserve1 pool1) 0) (get_or (reserve0 pool1) 0) fee1) (\<lambda>amount_out1.
      let intermediate_token = (if Some tok = token0 pool1 then token1 pool1 else token0 pool1);
          fee2 = get_or (dex_fee dex2_config) (lit (3 / 1000)) in
      bind (if intermediate_token = token0 pool2
            then calculate_swap_output amount_out1
                   (get_or (reserve0 pool2) 0) (get_or (reserve1 pool2) 0) fee2
            else calculate_swap_output amount_out1
                   (get_or (reserve1 pool2) 0) (get_or (reserve0 pool2) 0) fee2) (\<lambda>amount_out2.
      let profit = amount_out2 - amount;
          gas = 150000 * 20;
          net = profit - gas in
      if 0 < net
      then Inr (Some \<lparr>token = tok, amount_in = amount,
                       dex_routers = [router dex1_config, router dex2_config],
                       swap_data = [encode_swap_data keccak_hex pool1,
                                    encode_swap_data keccak_hex pool2],
                       expected_profit = profit, gas_cost = gas, net_profit = net,
                       timestamp = py_trunc now\<rparr>)
      else Inr None))))"

text \<open>\<^verbatim>\<open>self.dex_configs[name]\<close>.\<close>

definition dex_config_of :: "string \<Rightarrow> py_error + dex_config" where
  "dex_config_of name = (case map_of dex_configs name of None \<Rightarrow> Inl KeyError | Some c \<Rightarrow> Inr c)"

text \<open>
  \<^verbatim>\<open>_calculate_routes_cpu\<close>: for every token, every ordered pair of different DEXs,
  every pool of the first that holds the token and every pool of the second. \<open>pools\<close> is
  the dict of \<^verbatim>\<open>fetch_top_pools\<close>, in insertion order.
\<close>

definition calculate_routes_cpu ::
  "(string \<Rightarrow> string) \<Rightarrow> rat \<Rightarrow> string list \<Rightarrow> (string \<times> pool list) list
     \<Rightarrow> py_error + arbitrage_route list" where
  "calculate_routes_cpu keccak_hex now tokens pools =
     collect (\<lambda>tok.
       collect (\<lambda>(dex1_name, dex1_pools).
         collect (\<lambda>(dex2_name, dex2_pools).
           if dex1_name = dex2_name then Inr []
           else
             collect (\<lambda>pool1.
               if Some tok \<notin> set [token0 pool1, token1 pool1] then Inr []
               else
                 collect (\<lambda>pool2.
                   bind (dex_config_of dex1_name) (\<lambda>dex1_config.
                   bind (dex_config_of dex2_name) (\<lambda>dex2_config.
                   bind (check_arbitrage_opportunity keccak_hex now tok pool1 pool2
                           dex1_config dex2_config) (\<lambda>route.
                   case route of
                     None \<Rightarrow> Inr []
                   | Some r \<Rightarrow> if 0 < net_profit r then Inr [r] else Inr []))))
                 dex2_pools)
             dex1_pools)
         pools)
       pools)
     tokens"

subsection \<open>Route enumeration on the GPU\<close>

text \<open>A row of \<^verbatim>\<open>pool_data\<close>, converted to float64 by \<^verbatim>\<open>cp.array\<close>:
  \<^verbatim>\<open>[pool.get('reserve0', 0), pool.get('reserve1', 0), pool.get('fee', 0.003)]\<close>.\<close>

definition pool_row :: "pool \<Rightarrow> py_error + pyfloat \<times> pyfloat \<times> pyfloat" where
  "pool_row p =
     bind (float_of_int (get_or (reserve0 p) 0)) (\<lambda>r0.
     bind (float_of_int (get_or (reserve1 p) 0)) (\<lambda>r1.
     bind (case get_or (pool_fee p) (PyFloat (lit (3 / 1000))) of
             PyInt i \<Rightarrow> float_of_int i
           | PyFloat f \<Rightarrow> Inr f) (\<lambda>f.
     Inr (r0, r1, f))))"

definition pool_array :: "(string \<times> pool list) list \<Rightarrow> py_error + (pyfloat \<times> pyfloat \<times> pyfloat) list" where
  "pool_array pools = collect (\<lambda>p. bind (pool_row p) (\<lambda>row. Inr [row])) (concat (map snd pools))"

text \<open>The entry \<^verbatim>\<open>profits[i][j]\<close>: zero on the diagonal, the float profit of the two
  swaps elsewhere. The amount is the float \<^verbatim>\<open>1e18\<close>.\<close>

definition gpu_profit :: "(pyfloat \<times> pyfloat \<times> pyfloat) list \<Rightarrow> nat \<Rightarrow> nat \<Rightarrow> pyfloat" where
  "gpu_profit rows i j =
     (if i \<noteq> j
      then (case (rows ! i, rows ! j) of ((r0i, r1i, fi), (r0j, r1j, fj)) \<Rightarrow>
              let amount = Fin (10 ^ 18);
                  amount_out1 = calculate_swap_gpu amount r0i r1i fi;
                  amount_out2 = calculate_swap_gpu amount_out1 r1j r0j fj
              in fsub amount_out2 amount)
      else Fin 0)"

text \<open>The body of the second double loop, for one cell of the matrix. The threshold, a
  Python integer, is converted to float64 for the comparison.\<close>

definition gpu_route ::
  "config \<Rightarrow> rat \<Rightarrow> string list \<Rightarrow> pyfloat \<Rightarrow> py_error + arbitrage_route list" where
  "gpu_route cfg now tokens p =
     bind (float_of_int (min_profit_threshold cfg)) (\<lambda>threshold.
     if fgt p threshold
     then
       bind (case tokens of [] \<Rightarrow> Inl IndexError | t # _ \<Rightarrow> Inr t) (\<lambda>tok.
       bind (py_int p) (\<lambda>profit.
       bind (py_int (fsub p (Fin 2000000))) (\<lambda>net.
       Inr [\<lparr>token = tok, amount_in = 10 ^ 18,
              dex_routers = [router (snd (dex_configs ! 0)), router (snd (dex_configs ! 1))],
              swap_data = [[], []],
              expected_profit = profit, gas_cost = 100000 * 20, net_profit = net,
              timestamp = py_trunc now\<rparr>])))
     else Inr [])"

text \<open>\<^verbatim>\<open>_calculate_routes_gpu\<close>; \<open>gpu_available\<close> is the module's \<^verbatim>\<open>GPU_AVAILABLE\<close>.\<close>

definition calculate_routes_gpu ::
  "bool \<Rightarrow> config \<Rightarrow> (string \<Rightarrow> string) \<Rightarrow> rat \<Rightarrow> string list \<Rightarrow> (string \<times> pool list) list
     \<Rightarrow> py_error + arbitrage_route list" where
  "calculate_routes_gpu gpu_available cfg keccak_hex now tokens pools =
     (if \<not> gpu_available then calculate_routes_cpu keccak_hex now tokens pools
      else
        bind (pool_array pools) (\<lambda>rows.
        let n_pools = length rows in
        collect (\<lambda>i.
          collect (\<lambda>j. gpu_route cfg now tokens (gpu_profit rows i j)) [0..<n_pools])
        [0..<n_pools]))"

text \<open>\<^verbatim>\<open>calculate_arbitrage_routes\<close>, with \<^verbatim>\<open>self.use_gpu = config.use_gpu and GPU_AVAILABLE\<close>.\<close>

definition calculate_arbitrage_routes ::
  "bool \<Rightarrow> config \<Rightarrow> (string \<Rightarrow> string) \<Rightarrow> rat \<Rightarrow> string list \<Rightarrow> (string \<times> pool list) list
     \<Rightarrow> py_error + arbitrage_route list" where
  "calculate_arbitrage_routes gpu_available cfg keccak_hex now tokens pools =
     (if use_gpu cfg \<and> gpu_available
      then calculate_routes_gpu gpu_available cfg keccak_hex now tokens pools
      else calculate_routes_cpu keccak_hex now tokens pools)"

subsection \<open>The opportunity channel and \<^verbatim>\<open>analyze_block\<close>\<close>

text \<open>
  \<^verbatim>\<open>asyncio.Queue(maxsize=0)\<close> of the standard library: a FIFO that is full when
  \<open>maxsize > 0\<close> and it holds \<open>maxsize\<close> items; a size of zero or less means no bound.
  \<^verbatim>\<open>put\<close> appends; on a full queue it waits for a free slot (\<open>None\<close> here).
\<close>

record 'a queue =
  maxsize :: int
  items :: "'a list"

definition new_queue :: "int \<Rightarrow> 'a queue" where
  "new_queue m = \<lparr>maxsize = m, items = []\<rparr>"

definition queue_full :: "'a queue \<Rightarrow> bool" where
  "queue_full q = (0 < maxsize q \<and> maxsize q \<le> int (length (items q)))"

definition queue_put :: "'a queue \<Rightarrow> 'a \<Rightarrow> 'a queue option" where
  "queue_put q x = (if queue_full q then None else Some (q\<lparr>items := items q @ [x]\<rparr>))"

fun put_all :: "'a queue \<Rightarrow> 'a list \<Rightarrow> 'a queue option" where
  "put_all q [] = Some q"
| "put_all q (x # xs) = (case queue_put q x of None \<Rightarrow> None | Some q' \<Rightarrow> put_all q' xs)"

datatype log_level = Debug | Info | Warning | Error | Critical

type_synonym log_entry = "log_level \<times> string"

text \<open>The state of an \<^verbatim>\<open>ArbitrageScanner\<close> that \<^verbatim>\<open>analyze_block\<close> reads and writes.\<close>

record scanner =
  scanner_config :: config
  scanner_gpu_available :: bool
  scanner_tokens :: "string list"
  profitable_routes :: "arbitrage_route queue"
  scanner_log :: "log_entry list"

text \<open>\<^verbatim>\<open>__init__\<close>: the channel is \<^verbatim>\<open>asyncio.Queue()\<close>, whose default \<open>maxsize\<close> is 0.\<close>

definition scanner_init :: "config \<Rightarrow> bool \<Rightarrow> string list \<Rightarrow> scanner" where
  "scanner_init cfg gpu_available tokens =
     \<lparr>scanner_config = cfg, scanner_gpu_available = gpu_available, scanner_tokens = tokens,
      profitable_routes = new_queue 0, scanner_log = []\<rparr>"

text \<open>
  \<^verbatim>\<open>analyze_block\<close>, given the pools that \<^verbatim>\<open>fetch_top_pools\<close> returned and the time the
  analysis took. The result is an exception, or \<open>None\<close> when a \<^verbatim>\<open>put\<close> waits on a full queue,
  or the scanner after the block.
\<close>

definition analyze_block ::
  "(string \<Rightarrow> string) \<Rightarrow> rat \<Rightarrow> rat \<Rightarrow> (string \<times> pool list) list \<Rightarrow> scanner
     \<Rightarrow> py_error + scanner option" where
  "analyze_block keccak_hex now elapsed pools s =
     bind (calculate_arbitrage_routes (scanner_gpu_available s) (scanner_config s) keccak_hex now
             (scanner_tokens s) pools) (\<lambda>routes.
     let profitable = filter (\<lambda>r. min_profit_threshold (scanner_config s) < net_profit r) routes;
         log1 = (if profitable \<noteq> [] then [(Info, ''Found profitable routes'')] else []);
         log2 = (if 1 < elapsed then [(Warning, ''Block analysis took long'')] else [])
     in case put_all (profitable_routes s) profitable of
          None \<Rightarrow> Inr None
        | Some q \<Rightarrow> Inr (Some (s\<lparr>profitable_routes := q,
                                 scanner_log := scanner_log s @ log1 @ log2\<rparr>)))"

section \<open>The executor (\<^verbatim>\<open>scanner/core/executor.py\<close>)\<close>

subsection \<open>State and the node\<close>

text \<open>The transaction dict that \<^verbatim>\<open>build_transaction\<close> is given and that is signed.\<close>

record tx =
  tx_nonce :: int
  tx_gas :: int
  tx_max_fee_per_gas :: int
  tx_max_priority_fee_per_gas :: int
  tx_chain_id :: int
  tx_params :: arbitrage_route

text \<open>An entry of \<^verbatim>\<open>self.pending_txs\<close>.\<close>

record pending_tx =
  pending_route :: arbitrage_route
  pending_timestamp :: rat
  pending_nonce :: int

text \<open>
  The fields of an \<^verbatim>\<open>ArbitrageExecutor\<close> that the modelled methods read and write. \<open>sent\<close>
  is not a field of the class: it records the raw transactions that
  \<^verbatim>\<open>send_raw_transaction\<close> accepted, so that "no transaction is sent" can be stated.
\<close>

record executor =
  executor_config :: config
  nonce :: int
  pending_txs :: "string \<Rightarrow> pending_tx option"
  max_gas_price :: int
  rpc_urls :: "string list"
  current_rpc_index :: nat
  executor_log :: "log_entry list"
  sent :: "string list"

text \<open>
  The answers of the node and of the signing library to the calls of one pass of the
  submit loop. Every call either raises or returns.
\<close>

record rpc =
  latest_block :: "py_error + int option"  \<comment> \<open>\<^verbatim>\<open>get_block('latest')\<close>: the block's \<^verbatim>\<open>baseFeePerGas\<close>, if it has one\<close>
  node_gas_price :: "py_error + int"  \<comment> \<open>\<^verbatim>\<open>w3.eth.gas_price\<close>\<close>
  balance_of :: "string \<Rightarrow> py_error + int"  \<comment> \<open>\<^verbatim>\<open>balanceOf(contract_address).call()\<close> on a token\<close>
  estimate_call_gas :: "arbitrage_route \<Rightarrow> py_error + int"  \<comment> \<open>\<^verbatim>\<open>executeArbitrage(...).estimate_gas\<close>\<close>
  build_transaction :: "tx \<Rightarrow> py_error + unit"
  estimate_gas :: "tx \<Rightarrow> py_error + int"  \<comment> \<open>\<^verbatim>\<open>w3.eth.estimate_gas(tx)\<close>\<close>
  sign_transaction :: "tx \<Rightarrow> py_error + string"
  send_raw_transaction :: "string \<Rightarrow> py_error + string"
  failover_check :: "py_error + unit"  \<comment> \<open>re-initialisation and \<^verbatim>\<open>get_block\<close> in \<^verbatim>\<open>switch_rpc\<close>\<close>

text \<open>\<^verbatim>\<open>__init__\<close>: \<open>n\<close> is the transaction count of the account.\<close>

definition executor_init :: "config \<Rightarrow> string list \<Rightarrow> int \<Rightarrow> executor" where
  "executor_init cfg urls n =
     \<lparr>executor_config = cfg, nonce = n, pending_txs = Map.empty,
      max_gas_price = max_gas_price_gwei cfg * 10 ^ 9,
      rpc_urls = urls, current_rpc_index = 0, executor_log = [], sent = []\<rparr>"

definition log_msg :: "log_level \<Rightarrow> string \<Rightarrow> executor \<Rightarrow> executor" where
  "log_msg lvl msg s = s\<lparr>executor_log := executor_log s @ [(lvl, msg)]\<rparr>"

subsection \<open>\<^verbatim>\<open>validate_route\<close>\<close>

text \<open>
  The checks in the order of the source. \<open>now\<close> is the reading of \<^verbatim>\<open>time.time()\<close>; the
  age \<^verbatim>\<open>time.time() - route.timestamp\<close> is a float subtraction, and its
  \<^verbatim>\<open>OverflowError\<close> for a timestamp too large to convert is caught by the outer handler,
  which logs at error level. The log messages are kept without their interpolated values.
\<close>

definition validate_route :: "rpc \<Rightarrow> rat \<Rightarrow> arbitrage_route \<Rightarrow> executor \<Rightarrow> bool \<times> executor" where
  "validate_route node now route s =
     (if net_profit route < min_profit_threshold (executor_config s)
      then (False, log_msg Debug ''Profit too low'' s)
      else
        case float_of_int (timestamp route) of
          Inl e \<Rightarrow> (False, log_msg Error ''Validation error'' s)
        | Inr ts \<Rightarrow>
            if fgt (fsub (Fin now) ts) (Fin 30)
            then (False, log_msg Debug ''Route too old'' s)
            else
              case balance_of node (token route) of
                Inl e \<Rightarrow> (False, log_msg Debug ''Token contract validation failed'' s)
              | Inr b \<Rightarrow>
                  (case estimate_call_gas node route of
                     Inl e \<Rightarrow> (False, log_msg Debug ''Simulation failed'' s)
                   | Inr estimated_gas \<Rightarrow>
                       if 800000 < estimated_gas
                       then (False, log_msg Debug ''Gas estimate too high'' s)
                       else (True, s)))"

subsection \<open>\<^verbatim>\<open>get_gas_price\<close>\<close>

text \<open>
  \<^verbatim>\<open>
  try:
      latest_block = self.w3.eth.get_block('latest')
      base_fee = latest_block.get('baseFeePerGas', 0)
      if base_fee:
          gas_price = int(base_fee * 1.5)
      else:
          gas_price = self.w3.eth.gas_price
      return min(gas_price, self.max_gas_price)
  except Exception as e:
      self.logger.warning(...)
      return min(30 * 10**9, self.max_gas_price)
  \<close>
\<close>

definition get_gas_price :: "rpc \<Rightarrow> executor \<Rightarrow> int \<times> executor" where
  "get_gas_price node s =
     (case bind (latest_block node) (\<lambda>block.
             let base_fee = get_or block 0 in
             if base_fee \<noteq> 0
             then bind (float_of_int base_fee) (\<lambda>b. py_int (fmul b (lit (3 / 2))))
             else node_gas_price node) of
        Inr gas_price \<Rightarrow> (min gas_price (max_gas_price s), s)
      | Inl e \<Rightarrow> (min (30 * 10 ^ 9) (max_gas_price s),
                  log_msg Warning ''Gas price fetch failed'' s))"

subsection \<open>\<^verbatim>\<open>switch_rpc\<close> and the exception handler of \<^verbatim>\<open>execute_arbitrage\<close>\<close>

text \<open>\<^verbatim>\<open>str.lower\<close> on the ASCII letters, and the substring test \<^verbatim>\<open>sub in s\<close>.\<close>

definition lower :: "string \<Rightarrow> string" where
  "lower cs = map (\<lambda>c. let n = (of_char c :: nat)
                       in if 65 \<le> n \<and> n \<le> 90 then char_of (n + 32) else c) cs"

fun starts_with :: "string \<Rightarrow> string \<Rightarrow> bool" where
  "starts_with [] cs = True"
| "starts_with (p # ps) [] = False"
| "starts_with (p # ps) (c # cs) = (p = c \<and> starts_with ps cs)"

fun contains :: "string \<Rightarrow> string \<Rightarrow> bool" where
  "contains sub [] = (sub = [])"
| "contains sub (c # cs) = (starts_with sub (c # cs) \<or> contains sub cs)"

text \<open>\<^verbatim>\<open>str(e)\<close>.\<close>

fun error_message :: "py_error \<Rightarrow> string" where
  "error_message (Raised msg) = msg"
| "error_message ZeroDivisionError = ''float division by zero''"
| "error_message OverflowError = ''int too large to convert to float''"
| "error_message ValueError = ''cannot convert float NaN to integer''"
| "error_message KeyError = ''key''"
| "error_message IndexError = ''list index out of range''"

text \<open>
  \<^verbatim>\<open>switch_rpc\<close>: the index advances modulo the number of endpoints (a
  \<^verbatim>\<open>ZeroDivisionError\<close> for an empty list, an \<^verbatim>\<open>IndexError\<close> in the warning's message
  for an index out of range); the re-initialisation is tried and its failure only logged.
\<close>

definition switch_rpc :: "rpc \<Rightarrow> executor \<Rightarrow> py_error option \<times> executor" where
  "switch_rpc node s =
     (if rpc_urls s = [] then (Some ZeroDivisionError, s)
      else
        let old_index = current_rpc_index s;
            s1 = s\<lparr>current_rpc_index := (current_rpc_index s + 1) mod length (rpc_urls s)\<rparr>
        in if \<not> old_index < length (rpc_urls s) then (Some IndexError, s1)
           else
             let s2 = log_msg Warning ''RPC failover'' s1
             in case failover_check node of
                  Inr u \<Rightarrow> (None, log_msg Info ''RPC failover successful'' s2)
                | Inl e \<Rightarrow> (None, log_msg Error ''RPC failover failed'' s2))"

definition execution_failed :: "rpc \<Rightarrow> py_error \<Rightarrow> executor \<Rightarrow> (py_error + string option) \<times> executor" where
  "execution_failed node e s =
     (let s1 = log_msg Error ''Transaction execution failed'' s
      in if contains ''connection'' (lower (error_message e))
            \<or> contains ''timeout'' (lower (error_message e))
         then (case switch_rpc node s1 of
                 (Some e', s2) \<Rightarrow> (Inl e', s2)
               | (None, s2) \<Rightarrow> (Inr None, s2))
         else (Inr None, s1))"

subsection \<open>\<^verbatim>\<open>execute_arbitrage\<close>\<close>

text \<open>
  The gas limit is 600000, refined to \<^verbatim>\<open>int(gas_estimate * 1.15)\<close> when the estimate
  succeeds (an exception of the inner block, the float conversion included, keeps the
  default). The result is the returned transaction hash, \<open>None\<close>, or an exception that
  leaves the method (only \<^verbatim>\<open>switch_rpc\<close> inside the handler can raise one).
\<close>

definition refine_gas :: "rpc \<Rightarrow> tx \<Rightarrow> executor \<Rightarrow> tx \<times> executor" where
  "refine_gas node t s =
     (case bind (estimate_gas node t) (\<lambda>gas_estimate.
             bind (float_of_int gas_estimate) (\<lambda>g. py_int (fmul g (lit (115 / 100))))) of
        Inr g \<Rightarrow> (t\<lparr>tx_gas := g\<rparr>, s)
      | Inl e \<Rightarrow> (t, log_msg Warning ''Gas estimation failed, using default'' s))"

definition execute_arbitrage ::
  "rpc \<Rightarrow> arbitrage_route \<Rightarrow> executor \<Rightarrow> (py_error + string option) \<times> executor" where
  "execute_arbitrage node route s =
     (case get_gas_price node s of (gas_price, s1) \<Rightarrow>
      let tx0 = \<lparr>tx_nonce = nonce s1, tx_gas = 600000, tx_max_fee_per_gas = gas_price,
                 tx_max_priority_fee_per_gas = min (2 * 10 ^ 9) (gas_price div 10),
                 tx_chain_id = chain_id (executor_config s1), tx_params = route\<rparr>
      in case build_transaction node tx0 of
           Inl e \<Rightarrow> execution_failed node e s1
         | Inr u \<Rightarrow>
             (case refine_gas node tx0 s1 of (t, s2) \<Rightarrow>
              let cost = tx_gas t * tx_max_fee_per_gas t
              in if expected_profit route \<le> cost
                 then (Inr None, log_msg Debug ''Gas cost too high'' s2)
                 else
                   case sign_transaction node t of
                     Inl e \<Rightarrow> execution_failed node e s2
                   | Inr raw \<Rightarrow>
                       (case send_raw_transaction node raw of
                          Inl e \<Rightarrow> execution_failed node e s2
                        | Inr tx_hash \<Rightarrow>
                            (Inr (Some tx_hash),
                             s2\<lparr>nonce := nonce s2 + 1, sent := sent s2 @ [raw]\<rparr>))))"

text \<open>
  One pass of the loop of \<^verbatim>\<open>execute_routes\<close> for a route received from the queue: the
  entry of \<^verbatim>\<open>pending_txs\<close> is made only for a hash that is returned (and not empty).
\<close>

definition execute_route :: "rpc \<Rightarrow> rat \<Rightarrow> arbitrage_route \<Rightarrow> executor \<Rightarrow> executor" where
  "execute_route node now route s =
     (case validate_route node now route s of
        (False, s1) \<Rightarrow> log_msg Debug ''Route validation failed'' s1
      | (True, s1) \<Rightarrow>
          (case execute_arbitrage node route s1 of
             (Inl e, s2) \<Rightarrow> log_msg Error ''Execution error'' s2
           | (Inr None, s2) \<Rightarrow> s2
           | (Inr (Some tx_hash), s2) \<Rightarrow>
               if tx_hash \<noteq> []
               then (log_msg Info ''Executed arbitrage'' s2)
                      \<lparr>pending_txs := (pending_txs s2)(tx_hash \<mapsto>
                         \<lparr>pending_route = route, pending_timestamp = now,
                          pending_nonce = nonce s2 - 1\<rparr>)\<rparr>
               else s2))"

text \<open>A pool one of whose reserves is zero (or missing, which \<^verbatim>\<open>.get\<close> reads as zero).\<close>

definition zero_reserve :: "pool \<Rightarrow> bool" where
  "zero_reserve p = (get_or (reserve0 p) 0 = 0 \<or> get_or (reserve1 p) 0 = 0)"

text \<open>The transaction that \<^verbatim>\<open>execute_arbitrage\<close> has prepared when it compares
  the gas cost with the profit: the built transaction with its refined gas limit.\<close>

definition submitted_tx :: "rpc \<Rightarrow> arbitrage_route \<Rightarrow> executor \<Rightarrow> tx" where
  "submitted_tx node route s =
     (case get_gas_price node s of (gas_price, s1) \<Rightarrow>
        fst (refine_gas node
          \<lparr>tx_nonce = nonce s1, tx_gas = 600000, tx_max_fee_per_gas = gas_price,
           tx_max_priority_fee_per_gas = min (2 * 10 ^ 9) (gas_price div 10),
           tx_chain_id = chain_id (executor_config s1), tx_params = route\<rparr> s1))"

text \<open>The inputs of the end-to-end scenarios of the specification.\<close>

definition scenario_config :: config where
  "scenario_config = \<lparr>min_profit_threshold = 10 ^ 16, max_gas_price_gwei = 100,
                       use_gpu = False, chain_id = 8453\<rparr>"

definition scenario_route :: "int \<Rightarrow> int \<Rightarrow> arbitrage_route" where
  "scenario_route profit created =
     \<lparr>token = ''0x4200000000000000000000000000000000000006'', amount_in = 10 ^ 18,
      dex_routers = [router (snd (dex_configs ! 0)), router (snd (dex_configs ! 2))],
      swap_data = [[], []], expected_profit = profit, gas_cost = 150000 * 20,
      net_profit = profit - 150000 * 20, timestamp = created\<rparr>"

text \<open>A node without a base fee whose gas price is 1 gwei, whose gas estimation for the
  built transaction fails, and which accepts every transaction.\<close>

definition scenario_node :: rpc where
  "scenario_node =
     \<lparr>latest_block = Inr None, node_gas_price = Inr (10 ^ 9),
      balance_of = (\<lambda>t. Inr 0), estimate_call_gas = (\<lambda>r. Inr 300000),
      build_transaction = (\<lambda>t. Inr ()), estimate_gas = (\<lambda>t. Inl (Raised ''execution reverted'')),
      sign_transaction = (\<lambda>t. Inr ''signed''), send_raw_transaction = (\<lambda>raw. Inr ''hash''),
      failover_check = Inr ()\<rparr>"

text \<open>The value of the float expression of \<^verbatim>\<open>_calculate_swap_output\<close> when no operation
  overflows: the rounded quotient, before \<^verbatim>\<open>int\<close> truncates it.\<close>

definition swap_value :: "rat \<Rightarrow> rat \<Rightarrow> rat \<Rightarrow> rat \<Rightarrow> rat" where
  "swap_value a ri ro fee =
     (let w = fl (fl a * fl (1 - fee));
          n = fl (w * fl ro);
          d = fl (fl ri + w)
      in fl (n / d))"

text \<open>Token addresses of the default token list.\<close>

definition weth :: string where
  "weth = ''0x4200000000000000000000000000000000000006''"

definition usdc :: string where
  "usdc = ''0x833589fCD6eDb6E08f4c7C32D4f71b54bdA02913''"

text \<open>The two pools of the scenario "trivially profitable two-hop".\<close>

definition pool_a :: pool where
  "pool_a = \<lparr>pool_address = Some ''0xA'', token0 = Some weth, token1 = Some usdc,
             reserve0 = Some 1000000000000000000000, reserve1 = Some 2000000000000000000000000,
             tvl = Some 2001000000000000000000000, pool_fee = Some (PyFloat (lit (3 / 1000)))\<rparr>"

definition pool_b :: pool where
  "pool_b = \<lparr>pool_address = Some ''0xB'', token0 = Some usdc, token1 = Some weth,
             reserve0 = Some 2100000000000000000000000, reserve1 = Some 1000000000000000000000,
             tvl = Some 2101000000000000000000000, pool_fee = Some (PyFloat (lit (3 / 1000)))\<rparr>"

definition scenario_pools :: "(string \<times> pool list) list" where
  "scenario_pools = [(''uniswap_v2'', [pool_a]), (''sushiswap'', [pool_b])]"

text \<open>The route that the CPU path finds in the scenario: through pool B, then pool A.\<close>

definition route_ba :: "rat \<Rightarrow> arbitrage_route" where
  "route_ba now =
     \<lparr>token = weth, amount_in = 1000000000000000000,
      dex_routers = [''0x6BDED42c6DA8FBf0d2bA55B2fa120C5e0c8D7891'',
                     ''0x4752ba5DBc23f44D87826276BF6Fd6b1C372aD24''],
      swap_data = [''0xB'', ''0xA''],
      expected_profit = 41583879933252608, gas_cost = 3000000,
      net_profit = 41583879930252608, timestamp = py_trunc now\<rparr>"

text \<open>A configuration with the accelerator enabled and a negative profit threshold.\<close>

definition negative_threshold_config :: config where
  "negative_threshold_config = \<lparr>min_profit_threshold = - 3000000, max_gas_price_gwei = 100,
                                use_gpu = True, chain_id = 8453\<rparr>"

text \<open>The route that the GPU path makes of a diagonal cell of the profit matrix.\<close>

definition diagonal_route :: arbitrage_route where
  "diagonal_route =
     \<lparr>token = weth, amount_in = 1000000000000000000,
      dex_routers = [''0x4752ba5DBc23f44D87826276BF6Fd6b1C372aD24'',
                     ''0x2626664c2603336E57B271c5C0b26F421741e481''],
      swap_data = [[], []], expected_profit = 0, gas_cost = 2000000,
      net_profit = - 2000000, timestamp = 0\<rparr>"

subsection \<open>\<^verbatim>\<open>emergency_stop\<close>\<close>

text \<open>The cancel transaction that \<^verbatim>\<open>emergency_stop\<close> builds for an entry of
  \<^verbatim>\<open>pending_txs\<close>: a transfer of value 0 from the account to itself.\<close>

record cancel_tx =
  cancel_value :: int
  cancel_nonce :: int
  cancel_gas :: int
  cancel_max_fee_per_gas :: int
  cancel_max_priority_fee_per_gas :: int
  cancel_chain_id :: int

text \<open>
  \<^verbatim>\<open>
  cancel_tx = {
      'from': self.account.address, 'to': self.account.address, 'value': 0,
      'nonce': tx_data['nonce'], 'gas': 21000,
      'maxFeePerGas': int(self.max_gas_price * 1.5),
      'maxPriorityFeePerGas': int(self.max_gas_price * 0.2),
      'chainId': self.config.chain_id }
  \<close>
\<close>

definition cancel_transaction :: "executor \<Rightarrow> pending_tx \<Rightarrow> py_error + cancel_tx" where
  "cancel_transaction s tx_data =
     bind (float_of_int (max_gas_price s)) (\<lambda>m.
     bind (py_int (fmul m (lit (3 / 2)))) (\<lambda>max_fee.
     bind (py_int (fmul m (lit (1 / 5)))) (\<lambda>max_priority_fee.
       Inr \<lparr>cancel_value = 0, cancel_nonce = pending_nonce tx_data, cancel_gas = 21000,
            cancel_max_fee_per_gas = max_fee,
            cancel_max_priority_fee_per_gas = max_priority_fee,
            cancel_chain_id = chain_id (executor_config s)\<rparr>)))"

text \<open>
  The loop of \<^verbatim>\<open>emergency_stop\<close> over the entries of \<^verbatim>\<open>pending_txs\<close> (in the order of
  the dict); \<open>sign\<close> is the answer of the signing library for a cancel transaction. The first
  exception ends the loop in the handler, which logs it. The flag \<^verbatim>\<open>self.executing\<close>
  that the method clears belongs to the task loops, which are modelled one pass at a time.
\<close>

fun cancel_pending ::
  "rpc \<Rightarrow> (cancel_tx \<Rightarrow> py_error + string) \<Rightarrow> pending_tx list \<Rightarrow> executor \<Rightarrow> executor" where
  "cancel_pending node sign [] s = s"
| "cancel_pending node sign (tx_data # rest) s =
     (case bind (cancel_transaction s tx_data) (\<lambda>t.
           bind (sign t) (\<lambda>raw.
           bind (send_raw_transaction node raw) (\<lambda>cancel_hash. Inr raw))) of
        Inl e \<Rightarrow> log_msg Error ''Emergency stop error'' s
      | Inr raw \<Rightarrow>
          cancel_pending node sign rest
            (log_msg Info ''Cancel transaction sent'' (s\<lparr>sent := sent s @ [raw]\<rparr>)))"

definition emergency_stop ::
  "rpc \<Rightarrow> (cancel_tx \<Rightarrow> py_error + string) \<Rightarrow> pending_tx list \<Rightarrow> executor \<Rightarrow> executor" where
  "emergency_stop node sign entries s =
     cancel_pending node sign entries (log_msg Critical ''EMERGENCY STOP ACTIVATED'' s)"

text \<open>A node whose latest block has a base fee of 1 gwei, and a node that cannot be
  reached.\<close>

definition base_fee_node :: rpc where
  "base_fee_node = scenario_node\<lparr>latest_block := Inr (Some (10 ^ 9))\<rparr>"

definition unreachable_node :: rpc where
  "unreachable_node = scenario_node\<lparr>latest_block := Inl (Raised ''connection refused'')\<rparr>"

text \<open>An entry of \<^verbatim>\<open>pending_txs\<close> and the cancel transaction built for it under the
  default configuration.\<close>

definition scenario_pending :: pending_tx where
  "scenario_pending =
     \<lparr>pending_route = scenario_route (10 ^ 18) 0, pending_timestamp = 10, pending_nonce = 42\<rparr>"

definition scenario_cancel :: cancel_tx where
  "scenario_cancel =
     \<lparr>cancel_value = 0, cancel_nonce = 42, cancel_gas = 21000,
      cancel_max_fee_per_gas = 150 * 10 ^ 9, cancel_max_priority_fee_per_gas = 20 * 10 ^ 9,
      cancel_chain_id = 8453\<rparr>"

text \<open>The default configuration with the accelerator enabled.\<close>

definition gpu_config :: config where
  "gpu_config = \<lparr>min_profit_threshold = 10000000000000000, max_gas_price_gwei = 100,
                  use_gpu = True, chain_id = 8453\<rparr>"

text \<open>The pool of the scenario "zero-reserve pool": reserves \<open>(0, 2 * 10 ^ 24)\<close>.\<close>

definition pool_zero :: pool where
  "pool_zero = \<lparr>pool_address = Some ''0xA'', token0 = Some weth, token1 = Some usdc,
                reserve0 = Some 0, reserve1 = Some 2000000000000000000000000,
                tvl = Some 2000000000000000000000000,
                pool_fee = Some (PyFloat (lit (3 / 1000)))\<rparr>"

definition zero_reserve_pools :: "(string \<times> pool list) list" where
  "zero_reserve_pools = [(''uniswap_v2'', [pool_zero]), (''sushiswap'', [pool_b])]"

text \<open>The route that the GPU path makes of a cell of the profit matrix whose float value
  truncates to \<open>profit\<close>, and to \<open>net\<close> after the subtraction of \<^verbatim>\<open>2000000\<close>.\<close>

definition gpu_cell_route :: "int \<Rightarrow> int \<Rightarrow> rat \<Rightarrow> arbitrage_route" where
  "gpu_cell_route profit net now =
     \<lparr>token = weth, amount_in = 1000000000000000000,
      dex_routers = [''0x4752ba5DBc23f44D87826276BF6Fd6b1C372aD24'',
                     ''0x2626664c2603336E57B271c5C0b26F421741e481''],
      swap_data = [[], []], expected_profit = profit, gas_cost = 2000000,
      net_profit = net, timestamp = py_trunc now\<rparr>"

section \<open>Basic facts\<close>

lemma fl_zero [simp]: "fl 0 = 0"
  by (simp add: fl_def)

lemma to_double_zero [simp]: "to_double 0 = Fin 0"
  by (simp add: to_double_def)

lemma float_of_int_zero [simp]: "float_of_int 0 = Inr (Fin 0)"
  by (simp add: float_of_int_def)

lemma bind_Inr [simp]: "bind (Inr v) f = f v"
  by (simp add: bind_def)

lemma bind_Inl [simp]: "bind (Inl e) f = Inl e"
  by (simp add: bind_def)

lemma bind_eq_Inr: "bind r f = Inr y \<longleftrightarrow> (\<exists>v. r = Inr v \<and> f v = Inr y)"
  by (cases r) simp_all

lemma fmul_zero_left: "fmul (Fin 0) y = Fin 0 \<or> fmul (Fin 0) y = NaN"
  by (cases y) simp_all

lemma float_of_int_cases: "float_of_int i = Inl OverflowError \<or> (\<exists>r. float_of_int i = Inr (Fin r))"
  by (simp add: float_of_int_def split: pyfloat.splits)

lemma swap_output_zero_amount:
  assumes "calculate_swap_output 0 reserve_in reserve_out fee = Inr v"
  shows "v = 0"
proof (cases "reserve_in = 0 \<or> reserve_out = 0")
  case True
  with assms show ?thesis by (simp add: calculate_swap_output_def)
next
  case False
  from assms False obtain ro ri where
    ro: "float_of_int reserve_out = Inr ro" and ri: "float_of_int reserve_in = Inr ri"
    and d: "bind (fdiv (fmul (fmul (Fin 0) (fsub (Fin 1) fee)) ro)
                   (fadd ri (fmul (Fin 0) (fsub (Fin 1) fee)))) py_int = Inr v"
    by (auto simp: calculate_swap_output_def Let_def bind_eq_Inr)
  from ro obtain b where b: "ro = Fin b"
    using float_of_int_cases [of reserve_out] by auto
  let ?a = "fmul (Fin 0) (fsub (Fin 1) fee)"
  from fmul_zero_left [of "fsub (Fin 1) fee"] show ?thesis
  proof
    assume a: "?a = Fin 0"
    from d show ?thesis
      unfolding a b by (cases "fadd ri (Fin 0)") (auto simp: fdiv_def py_trunc_def split: if_splits)
  next
    assume a: "?a = NaN"
    from d show ?thesis
      unfolding a b by (cases "fadd ri NaN") (auto simp: fdiv_def split: if_splits)
  qed
qed

lemma swap_output_zero_reserve_in: "calculate_swap_output x 0 ro fee = Inr 0"
  by (simp add: calculate_swap_output_def)

lemma swap_output_zero_reserve_out: "calculate_swap_output x ri 0 fee = Inr 0"
  by (simp add: calculate_swap_output_def)

lemma no_route_zero_reserve:
  assumes z: "zero_reserve pool1 \<or> zero_reserve pool2"
  shows "check_arbitrage_opportunity k now tok pool1 pool2 c1 c2 \<noteq> Inr (Some r)"
proof
  assume c: "check_arbitrage_opportunity k now tok pool1 pool2 c1 c2 = Inr (Some r)"
  then obtain fee1 out1 out2 where
    o1: "(if Some tok = token0 pool1
          then calculate_swap_output (10 ^ 18) (get_or (reserve0 pool1) 0) (get_or (reserve1 pool1) 0) fee1
          else calculate_swap_output (10 ^ 18) (get_or (reserve1 pool1) 0) (get_or (reserve0 pool1) 0) fee1) = Inr out1"
    and o2: "(if (if Some tok = token0 pool1 then token1 pool1 else token0 pool1) = token0 pool2
          then calculate_swap_output out1 (get_or (reserve0 pool2) 0) (get_or (reserve1 pool2) 0)
                 (get_or (dex_fee c2) (lit (3 / 1000)))
          else calculate_swap_output out1 (get_or (reserve1 pool2) 0) (get_or (reserve0 pool2) 0)
                 (get_or (dex_fee c2) (lit (3 / 1000)))) = Inr out2"
    and pos: "0 < out2 - 10 ^ 18 - 150000 * 20"
    by (auto simp: check_arbitrage_opportunity_def Let_def bind_eq_Inr split: if_splits)
  from z have "out2 = 0"
  proof
    assume "zero_reserve pool1"
    with o1 have "out1 = 0"
      by (auto simp: zero_reserve_def swap_output_zero_reserve_in swap_output_zero_reserve_out
          split: if_splits)
    with o2 show ?thesis
      by (auto dest: swap_output_zero_amount split: if_splits)
  next
    assume "zero_reserve pool2"
    with o2 show ?thesis
      by (auto simp: zero_reserve_def swap_output_zero_reserve_in swap_output_zero_reserve_out
          split: if_splits)
  qed
  with pos show False by simp
qed

section \<open>The claims\<close>

text \<open>
  The guard of the CPU formula. For every input amount and every fee,
  \<^verbatim>\<open>_calculate_swap_output\<close> returns 0 when
  \<open>reserve_in = 0\<close> or \<open>reserve_out = 0\<close>: the guard returns before the division is
  evaluated; and a pair of pools one of which has a zero reserve never yields a route from
  \<^verbatim>\<open>_check_arbitrage_opportunity\<close>.
\<close>

theorem swap_output_zero_reserve:
  "(reserve_in = 0 \<or> reserve_out = 0 \<longrightarrow> calculate_swap_output x reserve_in reserve_out fee = Inr 0)
   \<and> (zero_reserve pool1 \<or> zero_reserve pool2 \<longrightarrow>
        (\<forall>r. check_arbitrage_opportunity k now tok pool1 pool2 c1 c2 \<noteq> Inr (Some r)))"
  using no_route_zero_reserve [of pool1 pool2 k now tok c1 c2]
  by (auto simp: swap_output_zero_reserve_in swap_output_zero_reserve_out)

theorem swap_output_zero_reserve_witness:
  "calculate_swap_output (10 ^ 18) 0 (2 * 10 ^ 24) (lit (3 / 1000)) = Inr 0
   \<and> (\<forall>r. check_arbitrage_opportunity (\<lambda>a. a) 0 ''WETH''
          \<lparr>pool_address = None, token0 = Some ''WETH'', token1 = Some ''USDC'',
           reserve0 = Some 0, reserve1 = Some (2 * 10 ^ 24), tvl = None, pool_fee = None\<rparr>
          \<lparr>pool_address = None, token0 = Some ''USDC'', token1 = Some ''WETH'',
           reserve0 = Some (21 * 10 ^ 23), reserve1 = Some (10 ^ 21), tvl = None, pool_fee = None\<rparr>
          (snd (dex_configs ! 0)) (snd (dex_configs ! 2)) \<noteq> Inr (Some r))"
  using swap_output_zero_reserve [where reserve_in = 0 and reserve_out = "2 * 10 ^ 24"
      and x = "10 ^ 18" and fee = "lit (3 / 1000)" and k = "\<lambda>a. a" and now = 0
      and tok = "''WETH''"
      and ?pool1.0 = "\<lparr>pool_address = None, token0 = Some ''WETH'', token1 = Some ''USDC'',
        reserve0 = Some 0, reserve1 = Some (2 * 10 ^ 24), tvl = None, pool_fee = None\<rparr>"
      and ?pool2.0 = "\<lparr>pool_address = None, token0 = Some ''USDC'', token1 = Some ''WETH'',
        reserve0 = Some (21 * 10 ^ 23), reserve1 = Some (10 ^ 21), tvl = None, pool_fee = None\<rparr>"
      and ?c1.0 = "snd (dex_configs ! 0)" and ?c2.0 = "snd (dex_configs ! 2)"]
  by (simp add: zero_reserve_def get_or_def)

lemma log_msg_fields [simp]:
  "nonce (log_msg l m s) = nonce s" "sent (log_msg l m s) = sent s"
  "pending_txs (log_msg l m s) = pending_txs s" "max_gas_price (log_msg l m s) = max_gas_price s"
  "executor_config (log_msg l m s) = executor_config s" "rpc_urls (log_msg l m s) = rpc_urls s"
  "current_rpc_index (log_msg l m s) = current_rpc_index s"
  by (simp_all add: log_msg_def)

lemma get_gas_price_state:
  "get_gas_price node s = (g, s1) \<Longrightarrow>
     nonce s1 = nonce s \<and> sent s1 = sent s \<and> pending_txs s1 = pending_txs s
     \<and> executor_config s1 = executor_config s \<and> max_gas_price s1 = max_gas_price s"
  by (auto simp: get_gas_price_def split: sum.splits)

lemma refine_gas_state:
  "refine_gas node t s = (t', s1) \<Longrightarrow>
     nonce s1 = nonce s \<and> sent s1 = sent s \<and> pending_txs s1 = pending_txs s"
  by (auto simp: refine_gas_def split: sum.splits)

lemma switch_rpc_state:
  "switch_rpc node s = (r, s1) \<Longrightarrow>
     nonce s1 = nonce s \<and> sent s1 = sent s \<and> pending_txs s1 = pending_txs s"
  by (auto simp: switch_rpc_def Let_def split: if_splits sum.splits)

lemma execution_failed_state:
  "execution_failed node e s = (r, s1) \<Longrightarrow>
     (\<forall>h. r \<noteq> Inr (Some h)) \<and> nonce s1 = nonce s \<and> sent s1 = sent s
     \<and> pending_txs s1 = pending_txs s"
  by (auto simp: execution_failed_def Let_def split: if_splits prod.splits option.splits
      dest!: switch_rpc_state)

lemma execute_arbitrage_sent:
  assumes "execute_arbitrage node route s = (Inr (Some h), s')"
  shows "\<exists>raw. tx_gas (submitted_tx node route s) * tx_max_fee_per_gas (submitted_tx node route s)
             < expected_profit route
           \<and> sign_transaction node (submitted_tx node route s) = Inr raw
           \<and> send_raw_transaction node raw = Inr h
           \<and> nonce s' = nonce s + 1 \<and> sent s' = sent s @ [raw]
           \<and> pending_txs s' = pending_txs s"
proof -
  obtain g s1 where g: "get_gas_price node s = (g, s1)" by (cases "get_gas_price node s")
  let ?tx0 = "\<lparr>tx_nonce = nonce s1, tx_gas = 600000, tx_max_fee_per_gas = g,
           tx_max_priority_fee_per_gas = min (2 * 10 ^ 9) (g div 10),
           tx_chain_id = chain_id (executor_config s1), tx_params = route\<rparr>"
  obtain t s2 where r: "refine_gas node ?tx0 s1 = (t, s2)" by (cases "refine_gas node ?tx0 s1")
  have t: "submitted_tx node route s = t"
    unfolding submitted_tx_def g prod.case r by simp
  note st = get_gas_price_state [OF g] refine_gas_state [OF r]
  from assms have
    "(case build_transaction node ?tx0 of
        Inl e \<Rightarrow> execution_failed node e s1
      | Inr u \<Rightarrow>
          if expected_profit route \<le> tx_gas t * tx_max_fee_per_gas t
          then (Inr None, log_msg Debug ''Gas cost too high'' s2)
          else case sign_transaction node t of
                 Inl e \<Rightarrow> execution_failed node e s2
               | Inr raw \<Rightarrow>
                   (case send_raw_transaction node raw of
                      Inl e \<Rightarrow> execution_failed node e s2
                    | Inr tx_hash \<Rightarrow>
                        (Inr (Some tx_hash),
                         s2\<lparr>nonce := nonce s2 + 1, sent := sent s2 @ [raw]\<rparr>)))
     = (Inr (Some h), s')"
    unfolding execute_arbitrage_def g prod.case Let_def r by simp
  then show ?thesis
    unfolding t using st
    by (auto split: sum.splits if_splits dest: execution_failed_state)
qed

lemma execute_arbitrage_not_sent:
  assumes "execute_arbitrage node route s = (res, s')" and "\<forall>h. res \<noteq> Inr (Some h)"
  shows "nonce s' = nonce s \<and> sent s' = sent s \<and> pending_txs s' = pending_txs s"
proof -
  obtain g s1 where g: "get_gas_price node s = (g, s1)" by (cases "get_gas_price node s")
  let ?tx0 = "\<lparr>tx_nonce = nonce s1, tx_gas = 600000, tx_max_fee_per_gas = g,
           tx_max_priority_fee_per_gas = min (2 * 10 ^ 9) (g div 10),
           tx_chain_id = chain_id (executor_config s1), tx_params = route\<rparr>"
  obtain t s2 where r: "refine_gas node ?tx0 s1 = (t, s2)" by (cases "refine_gas node ?tx0 s1")
  note st = get_gas_price_state [OF g] refine_gas_state [OF r]
  from assms(1) have
    "(case build_transaction node ?tx0 of
        Inl e \<Rightarrow> execution_failed node e s1
      | Inr u \<Rightarrow>
          if expected_profit route \<le> tx_gas t * tx_max_fee_per_gas t
          then (Inr None, log_msg Debug ''Gas cost too high'' s2)
          else case sign_transaction node t of
                 Inl e \<Rightarrow> execution_failed node e s2
               | Inr raw \<Rightarrow>
                   (case send_raw_transaction node raw of
                      Inl e \<Rightarrow> execution_failed node e s2
                    | Inr tx_hash \<Rightarrow>
                        (Inr (Some tx_hash),
                         s2\<lparr>nonce := nonce s2 + 1, sent := sent s2 @ [raw]\<rparr>)))
     = (res, s')"
    unfolding execute_arbitrage_def g prod.case Let_def r by simp
  then show ?thesis
    using st assms(2)
    by (auto split: sum.splits if_splits dest: execution_failed_state)
qed

lemma execute_route_pending:
  assumes "\<forall>h. fst (execute_arbitrage node route s) \<noteq> Inr (Some h)"
  shows "pending_txs (execute_route node now route s) = pending_txs s"
proof -
  obtain ok s1 where v: "validate_route node now route s = (ok, s1)"
    by (cases "validate_route node now route s")
  have p1: "pending_txs s1 = pending_txs s" and acc: "ok \<Longrightarrow> s1 = s"
    using v by (auto simp: validate_route_def split: if_splits sum.splits)
  show ?thesis
  proof (cases ok)
    case False
    then show ?thesis by (simp add: execute_route_def v p1)
  next
    case True
    obtain res s2 where e: "execute_arbitrage node route s = (res, s2)"
      by (cases "execute_arbitrage node route s")
    with assms have n: "\<forall>h. res \<noteq> Inr (Some h)" by simp
    from execute_arbitrage_not_sent [OF e n] have "pending_txs s2 = pending_txs s" by simp
    with n show ?thesis
      using True acc by (auto simp: execute_route_def v e split: sum.splits option.splits)
  qed
qed

text \<open>
  C5. When the refined gas cost \<open>gas_limit * max_fee_per_gas\<close> is at least
  \<open>route.expected_profit\<close>, or signing fails, or \<^verbatim>\<open>send_raw_transaction\<close> fails, then
  \<^verbatim>\<open>execute_arbitrage\<close> returns no hash, no transaction is sent, the local nonce is
  unchanged and the submit loop creates no entry of \<^verbatim>\<open>pending_txs\<close>. The nonce changes only
  by the increment that follows a successful send.
\<close>

theorem execute_arbitrage_failed_send:
  assumes run: "execute_arbitrage node route s = (res, s')"
  shows "(expected_profit route
            \<le> tx_gas (submitted_tx node route s) * tx_max_fee_per_gas (submitted_tx node route s)
          \<or> (\<exists>e. sign_transaction node (submitted_tx node route s) = Inl e)
          \<or> (\<exists>raw e. sign_transaction node (submitted_tx node route s) = Inr raw
                \<and> send_raw_transaction node raw = Inl e)
          \<longrightarrow> (\<forall>h. res \<noteq> Inr (Some h)) \<and> nonce s' = nonce s \<and> sent s' = sent s
              \<and> pending_txs s' = pending_txs s
              \<and> pending_txs (execute_route node now route s) = pending_txs s)
         \<and> (nonce s' \<noteq> nonce s
          \<longrightarrow> nonce s' = nonce s + 1
              \<and> (\<exists>raw h. sign_transaction node (submitted_tx node route s) = Inr raw
                    \<and> send_raw_transaction node raw = Inr h \<and> res = Inr (Some h)
                    \<and> sent s' = sent s @ [raw]))"
proof (intro conjI impI)
  assume fail: "expected_profit route
            \<le> tx_gas (submitted_tx node route s) * tx_max_fee_per_gas (submitted_tx node route s)
          \<or> (\<exists>e. sign_transaction node (submitted_tx node route s) = Inl e)
          \<or> (\<exists>raw e. sign_transaction node (submitted_tx node route s) = Inr raw
                \<and> send_raw_transaction node raw = Inl e)"
  have no: "\<forall>h. res \<noteq> Inr (Some h)"
  proof (intro allI notI)
    fix h assume "res = Inr (Some h)"
    with run have "execute_arbitrage node route s = (Inr (Some h), s')" by simp
    from execute_arbitrage_sent [OF this] fail show False by auto
  qed
  then show "\<forall>h. res \<noteq> Inr (Some h)" .
  from execute_arbitrage_not_sent [OF run no]
  show "nonce s' = nonce s" "sent s' = sent s" "pending_txs s' = pending_txs s" by simp_all
  from no run show "pending_txs (execute_route node now route s) = pending_txs s"
    by (intro execute_route_pending) simp
next
  assume ch: "nonce s' \<noteq> nonce s"
  have "\<exists>h. res = Inr (Some h)"
  proof (rule ccontr)
    assume "\<not> (\<exists>h. res = Inr (Some h))"
    then have "\<forall>h. res \<noteq> Inr (Some h)" by simp
    from execute_arbitrage_not_sent [OF run this] ch show False by simp
  qed
  then obtain h where h: "res = Inr (Some h)" ..
  with run have "execute_arbitrage node route s = (Inr (Some h), s')" by simp
  from execute_arbitrage_sent [OF this] h
  show "nonce s' = nonce s + 1"
    "\<exists>raw h. sign_transaction node (submitted_tx node route s) = Inr raw
        \<and> send_raw_transaction node raw = Inr h \<and> res = Inr (Some h) \<and> sent s' = sent s @ [raw]"
    by auto
qed

lemma scenario_gas_exceeds_profit:
  "execute_arbitrage scenario_node (scenario_route 500000000000000 0)
     (executor_init scenario_config [''E1'', ''E2''] 42)
   = (Inr None, log_msg Debug ''Gas cost too high''
        (log_msg Warning ''Gas estimation failed, using default''
          (executor_init scenario_config [''E1'', ''E2''] 42)))"
  by (simp add: execute_arbitrage_def get_gas_price_def scenario_node_def refine_gas_def
      scenario_route_def executor_init_def scenario_config_def get_or_def Let_def)

lemma scenario_submitted_tx:
  "submitted_tx scenario_node (scenario_route p 0) (executor_init scenario_config [''E1'', ''E2''] 42)
   = \<lparr>tx_nonce = 42, tx_gas = 600000, tx_max_fee_per_gas = 10 ^ 9,
      tx_max_priority_fee_per_gas = 10 ^ 8, tx_chain_id = 8453,
      tx_params = scenario_route p 0\<rparr>"
  by (simp add: submitted_tx_def get_gas_price_def scenario_node_def refine_gas_def
      executor_init_def scenario_config_def get_or_def Let_def)

lemma scenario_profitable:
  "execute_arbitrage scenario_node (scenario_route 1000000000000000000 0)
     (executor_init scenario_config [''E1'', ''E2''] 42)
   = (Inr (Some ''hash''),
      (log_msg Warning ''Gas estimation failed, using default''
         (executor_init scenario_config [''E1'', ''E2''] 42))\<lparr>nonce := 43, sent := [''signed'']\<rparr>)"
  by (simp add: execute_arbitrage_def get_gas_price_def scenario_node_def refine_gas_def
      scenario_route_def executor_init_def scenario_config_def get_or_def Let_def log_msg_def)

theorem execute_arbitrage_failed_send_witness:
  "fst (execute_arbitrage scenario_node (scenario_route 500000000000000 0)
          (executor_init scenario_config [''E1'', ''E2''] 42)) = Inr None
   \<and> nonce (snd (execute_arbitrage scenario_node (scenario_route 500000000000000 0)
          (executor_init scenario_config [''E1'', ''E2''] 42))) = 42
   \<and> sent (snd (execute_arbitrage scenario_node (scenario_route 500000000000000 0)
          (executor_init scenario_config [''E1'', ''E2''] 42))) = []
   \<and> pending_txs (execute_route scenario_node 10 (scenario_route 500000000000000 0)
          (executor_init scenario_config [''E1'', ''E2''] 42)) = Map.empty
   \<and> fst (execute_arbitrage scenario_node (scenario_route 1000000000000000000 0)
          (executor_init scenario_config [''E1'', ''E2''] 42)) = Inr (Some ''hash'')
   \<and> nonce (snd (execute_arbitrage scenario_node (scenario_route 1000000000000000000 0)
          (executor_init scenario_config [''E1'', ''E2''] 42))) = 43"
proof -
  have e: "expected_profit (scenario_route p 0) = p" for p
    by (simp add: scenario_route_def)
  have i: "nonce (executor_init scenario_config [''E1'', ''E2''] 42) = 42"
    "sent (executor_init scenario_config [''E1'', ''E2''] 42) = []"
    "pending_txs (executor_init scenario_config [''E1'', ''E2''] 42) = Map.empty"
    by (simp_all add: executor_init_def)
  from execute_arbitrage_failed_send [OF scenario_gas_exceeds_profit, of 10]
  have "pending_txs (execute_route scenario_node 10 (scenario_route 500000000000000 0)
          (executor_init scenario_config [''E1'', ''E2''] 42)) = Map.empty"
    by (simp add: scenario_submitted_tx e i)
  moreover from execute_arbitrage_failed_send [OF scenario_profitable, of 10]
  have "nonce ((log_msg Warning ''Gas estimation failed, using default''
         (executor_init scenario_config [''E1'', ''E2''] 42))\<lparr>nonce := 43, sent := [''signed'']\<rparr>)
        = 42 + 1"
    by (simp add: i)
  ultimately show ?thesis
    by (simp add: scenario_gas_exceeds_profit scenario_profitable i)
qed

section \<open>Properties of rounding to binary64\<close>

lemma bit_length_bounds:
  "0 < n \<Longrightarrow> 1 \<le> bit_length n \<and> 2 ^ nat (bit_length n - 1) \<le> n \<and> n < 2 ^ nat (bit_length n)"
proof (induction n rule: bit_length.induct)
  case (1 n)
  show ?case
  proof (cases "n = 1")
    case True
    have "bit_length 1 = 1"
      by (simp add: bit_length.simps [of 1] bit_length.simps [of 0])
    with True show ?thesis by simp
  next
    case False
    with "1.prems" have m: "0 < n div 2" by simp
    let ?k = "bit_length (n div 2)"
    from "1.IH" m "1.prems" have k: "1 \<le> ?k" and lo: "2 ^ nat (?k - 1) \<le> n div 2"
      and hi: "n div 2 < 2 ^ nat ?k"
      by auto
    have bn: "bit_length n = 1 + ?k"
      using "1.prems" by (simp add: bit_length.simps [of n])
    have e: "nat (1 + ?k - 1) = Suc (nat (?k - 1))" "nat (1 + ?k) = Suc (nat ?k)"
      using k by auto
    have sk: "nat ?k = Suc (nat (?k - 1))" using k by simp
    have pk: "(2::int) ^ nat ?k = 2 * 2 ^ nat (?k - 1)"
      by (subst sk) simp
    have "2 * 2 ^ nat (?k - 1) \<le> n" using lo by linarith
    moreover have "n < 2 * 2 ^ nat ?k" using hi by linarith
    ultimately show ?thesis using k pk by (simp add: bn e)
  qed
qed

lemma two_powi_pos [simp]: "0 < (2::rat) powi k"
  by (simp add: zero_less_power_int)

lemma two_powi_less: "j < k \<Longrightarrow> (2::rat) powi j < 2 powi k"
  by (rule power_int_strict_increasing) simp_all

lemma two_powi_le: "j \<le> k \<Longrightarrow> (2::rat) powi j \<le> 2 powi k"
  by (rule power_int_increasing) simp_all

lemma two_powi_Suc: "(2::rat) powi (k + 1) = 2 * 2 powi k"
  by (simp add: power_int_add)

lemma two_powi_add: "(2::rat) powi (j + k) = 2 powi j * 2 powi k"
  by (simp add: power_int_add)

lemma two_powi_diff: "(2::rat) powi (j - k) = 2 powi j / 2 powi k"
  by (simp add: power_int_diff)

lemma ilog2_bounds:
  assumes "0 < t"
  shows "2 powi ilog2 t \<le> t \<and> t < 2 powi (ilog2 t + 1)"
proof -
  obtain p q where pq: "quotient_of t = (p, q)" by (cases "quotient_of t")
  then have q: "0 < q" and t: "t = of_int p / of_int q"
    by (auto simp: quotient_of_denom_pos quotient_of_div)
  from assms t q have p: "0 < p"
    by (simp add: zero_less_divide_iff)
  let ?bp = "bit_length p" and ?bq = "bit_length q"
  let ?d = "?bp - ?bq"
  from bit_length_bounds [OF p] have bp: "1 \<le> ?bp" "2 ^ nat (?bp - 1) \<le> p" "p < 2 ^ nat ?bp"
    by auto
  from bit_length_bounds [OF q] have bq: "1 \<le> ?bq" "2 ^ nat (?bq - 1) \<le> q" "q < 2 ^ nat ?bq"
    by auto
  have P1: "(2::rat) powi (?bp - 1) \<le> of_int p"
  proof -
    have "(of_int (2 ^ nat (?bp - 1)) :: rat) \<le> of_int p" using bp(2) by (simp only: of_int_le_iff)
    then show ?thesis using bp(1) by (simp add: power_int_def)
  qed
  have P2: "of_int p < (2::rat) powi ?bp"
  proof -
    have "(of_int p :: rat) < of_int (2 ^ nat ?bp)" using bp(3) by (simp only: of_int_less_iff)
    then show ?thesis using bp(1) by (simp add: power_int_def)
  qed
  have Q1: "(2::rat) powi (?bq - 1) \<le> of_int q"
  proof -
    have "(of_int (2 ^ nat (?bq - 1)) :: rat) \<le> of_int q" using bq(2) by (simp only: of_int_le_iff)
    then show ?thesis using bq(1) by (simp add: power_int_def)
  qed
  have Q2: "of_int q < (2::rat) powi ?bq"
  proof -
    have "(of_int q :: rat) < of_int (2 ^ nat ?bq)" using bq(3) by (simp only: of_int_less_iff)
    then show ?thesis using bq(1) by (simp add: power_int_def)
  qed
  have qpos: "(0::rat) < of_int q" using q by simp
  have lower: "2 powi (?d - 1) < t"
  proof -
    have "2 powi (?d - 1) * of_int q < (2::rat) powi (?d - 1) * 2 powi ?bq"
      using Q2 by (simp add: mult_strict_left_mono)
    also have "\<dots> = 2 powi (?bp - 1)" by (simp flip: two_powi_add)
    also have "\<dots> \<le> of_int p" by (rule P1)
    finally show ?thesis using qpos by (simp add: t pos_less_divide_eq)
  qed
  have upper: "t < 2 powi (?d + 1)"
  proof -
    have "of_int p < (2::rat) powi ?bp" by (rule P2)
    also have "\<dots> = 2 powi (?d + 1) * 2 powi (?bq - 1)" by (simp flip: two_powi_add)
    also have "\<dots> \<le> 2 powi (?d + 1) * of_int q"
      using Q1 by (simp add: mult_left_mono)
    finally show ?thesis using qpos by (simp add: t pos_divide_less_eq)
  qed
  show ?thesis
  proof (cases "2 powi ?d \<le> t")
    case True
    then have "ilog2 t = ?d" by (simp add: ilog2_def pq Let_def)
    with True upper show ?thesis by simp
  next
    case False
    then have "ilog2 t = ?d - 1" by (simp add: ilog2_def pq Let_def)
    with False lower show ?thesis by simp
  qed
qed

lemma ilog2_unique:
  assumes "2 powi e \<le> t" "t < 2 powi (e + 1)"
  shows "ilog2 t = e"
proof -
  have t: "0 < t" using assms(1) two_powi_pos [of e] by linarith
  from ilog2_bounds [OF t] have b: "2 powi ilog2 t \<le> t" "t < 2 powi (ilog2 t + 1)" by auto
  have "\<not> ilog2 t < e"
  proof
    assume "ilog2 t < e"
    then have "(2::rat) powi (ilog2 t + 1) \<le> 2 powi e" by (intro two_powi_le) simp
    with b(2) assms(1) show False by linarith
  qed
  moreover have "\<not> e < ilog2 t"
  proof
    assume "e < ilog2 t"
    then have "(2::rat) powi (e + 1) \<le> 2 powi ilog2 t" by (intro two_powi_le) simp
    with b(1) assms(2) show False by linarith
  qed
  ultimately show ?thesis by linarith
qed

lemma ilog2_mono:
  assumes "0 < s" "s \<le> t"
  shows "ilog2 s \<le> ilog2 t"
proof (rule ccontr)
  assume "\<not> ilog2 s \<le> ilog2 t"
  then have "(2::rat) powi (ilog2 t + 1) \<le> 2 powi ilog2 s" by (intro two_powi_le) simp
  moreover have "2 powi ilog2 s \<le> s" using ilog2_bounds [OF assms(1)] by simp
  moreover have "t < 2 powi (ilog2 t + 1)" using ilog2_bounds [of t] assms by simp
  ultimately show False using assms(2) by linarith
qed

lemma ilog2_ge: "2 powi k \<le> t \<Longrightarrow> k \<le> ilog2 t"
proof (rule ccontr)
  assume a: "2 powi k \<le> t" "\<not> k \<le> ilog2 t"
  have t: "0 < t" using a(1) two_powi_pos [of k] by linarith
  from a(2) have "(2::rat) powi (ilog2 t + 1) \<le> 2 powi k" by (intro two_powi_le) simp
  with ilog2_bounds [OF t] a(1) show False by linarith
qed

lemma round_half_even_of_int [simp]: "round_half_even (of_int n) = n"
  by (simp add: round_half_even_def)

lemma round_half_even_bounds:
  "\<lfloor>v\<rfloor> \<le> round_half_even v \<and> round_half_even v \<le> \<lfloor>v\<rfloor> + 1"
  by (simp add: round_half_even_def Let_def)

lemma round_half_even_error: "\<bar>of_int (round_half_even v) - v\<bar> \<le> 1 / 2"
proof -
  have b: "of_int \<lfloor>v\<rfloor> \<le> v" "v < of_int \<lfloor>v\<rfloor> + 1" by linarith+
  consider "v - of_int \<lfloor>v\<rfloor> < 1 / 2" | "1 / 2 < v - of_int \<lfloor>v\<rfloor>" | "v - of_int \<lfloor>v\<rfloor> = 1 / 2"
    by linarith
  then show ?thesis
  proof cases
    case 1
    then have "round_half_even v = \<lfloor>v\<rfloor>" by (simp add: round_half_even_def Let_def)
    with 1 b show ?thesis by simp
  next
    case 2
    then have "round_half_even v = \<lfloor>v\<rfloor> + 1" by (simp add: round_half_even_def Let_def)
    with 2 b show ?thesis by simp
  next
    case 3
    then have "round_half_even v = \<lfloor>v\<rfloor> \<or> round_half_even v = \<lfloor>v\<rfloor> + 1"
      by (simp add: round_half_even_def Let_def)
    with 3 b show ?thesis by auto
  qed
qed

lemma round_half_even_mono:
  assumes "v \<le> w"
  shows "round_half_even v \<le> round_half_even w"
proof (cases "\<lfloor>v\<rfloor> = \<lfloor>w\<rfloor>")
  case True
  let ?n = "\<lfloor>w\<rfloor>"
  have r: "v - of_int ?n \<le> w - of_int ?n" using assms by simp
  show ?thesis
    unfolding round_half_even_def Let_def True
    using r by (simp split: if_splits)
next
  case False
  with assms have "\<lfloor>v\<rfloor> + 1 \<le> \<lfloor>w\<rfloor>"
    using floor_mono [OF assms] by linarith
  with round_half_even_bounds [of v] round_half_even_bounds [of w] show ?thesis by linarith
qed

lemma round_half_even_le_int: "v \<le> of_int n \<Longrightarrow> round_half_even v \<le> n"
  using round_half_even_mono [of v "of_int n"] by simp

lemma round_half_even_ge_int: "of_int n \<le> v \<Longrightarrow> n \<le> round_half_even v"
  using round_half_even_mono [of "of_int n" v] by simp

lemma floor_minus_non_int:
  fixes v :: rat
  assumes "v \<noteq> of_int \<lfloor>v\<rfloor>"
  shows "\<lfloor>- v\<rfloor> = - \<lfloor>v\<rfloor> - 1"
proof (rule floor_unique)
  have "of_int \<lfloor>v\<rfloor> \<le> v" by (rule of_int_floor_le)
  with assms [symmetric] have "of_int \<lfloor>v\<rfloor> < v"
    by (rule order.not_eq_order_implies_strict)
  moreover have "v < of_int \<lfloor>v\<rfloor> + 1" by linarith
  ultimately show "of_int (- \<lfloor>v\<rfloor> - 1) \<le> - v" "- v < of_int (- \<lfloor>v\<rfloor> - 1) + 1"
    by simp_all
qed

lemma round_half_even_minus: "round_half_even (- v) = - round_half_even v"
proof (cases "v = of_int \<lfloor>v\<rfloor>")
  case True
  then obtain n where v: "v = of_int n" ..
  have "round_half_even (of_int (- n)) = - n" by (rule round_half_even_of_int)
  then show ?thesis by (simp add: v)
next
  case False
  note f = floor_minus_non_int [OF False]
  let ?r = "v - of_int \<lfloor>v\<rfloor>"
  have r': "- v - of_int (- \<lfloor>v\<rfloor> - 1) = 1 - ?r" by simp
  consider "?r < 1 / 2" | "1 / 2 < ?r" | "?r = 1 / 2" by linarith
  then show ?thesis
  proof cases
    case 1
    then have "round_half_even v = \<lfloor>v\<rfloor>" by (simp add: round_half_even_def Let_def)
    moreover from 1 have "round_half_even (- v) = - \<lfloor>v\<rfloor> - 1 + 1"
      unfolding round_half_even_def Let_def f r' by simp
    ultimately show ?thesis by simp
  next
    case 2
    then have "round_half_even v = \<lfloor>v\<rfloor> + 1" by (simp add: round_half_even_def Let_def)
    moreover from 2 have "round_half_even (- v) = - \<lfloor>v\<rfloor> - 1"
      unfolding round_half_even_def Let_def f r' by simp
    ultimately show ?thesis by simp
  next
    case 3
    then have a: "round_half_even v = (if even \<lfloor>v\<rfloor> then \<lfloor>v\<rfloor> else \<lfloor>v\<rfloor> + 1)"
      by (simp add: round_half_even_def Let_def)
    from 3 have b: "round_half_even (- v) = (if even (- \<lfloor>v\<rfloor> - 1) then - \<lfloor>v\<rfloor> - 1 else - \<lfloor>v\<rfloor> - 1 + 1)"
      unfolding round_half_even_def Let_def f r' by simp
    show ?thesis unfolding a b by simp
  qed
qed

lemma quantum_minus [simp]: "quantum (- t) = quantum t"
  by (simp add: quantum_def)

lemma fl_minus: "fl (- t) = - fl t"
  by (simp add: fl_def round_half_even_minus)

lemma quantum_ge: "- 1074 \<le> quantum t" "ilog2 \<bar>t\<bar> - 52 \<le> quantum t"
  by (simp_all add: quantum_def)

lemma quantum_mono: "0 < s \<Longrightarrow> s \<le> t \<Longrightarrow> quantum s \<le> quantum t"
  using ilog2_mono [of s t] by (simp add: quantum_def)

lemma fl_nonneg: "0 \<le> t \<Longrightarrow> 0 \<le> fl t"
proof -
  assume t: "0 \<le> t"
  have "0 \<le> round_half_even (t / 2 powi quantum t)"
    by (rule round_half_even_ge_int) (simp add: t)
  then show ?thesis by (simp add: fl_def)
qed

text \<open>A value on the grid of its own quantum is not changed by rounding.\<close>

lemma fl_grid:
  assumes t: "t = of_int m * 2 powi k" and q: "quantum t \<le> k"
  shows "fl t = t"
proof (cases "t = 0")
  case True
  then show ?thesis by (simp add: fl_def)
next
  case False
  let ?q = "quantum t"
  have "t / 2 powi ?q = of_int m * 2 powi (k - ?q)"
    by (simp add: t two_powi_diff)
  also have "(2::rat) powi (k - ?q) = of_int (2 ^ nat (k - ?q))"
    using q by (simp add: power_int_def)
  finally have "t / 2 powi ?q = of_int (m * 2 ^ nat (k - ?q))" by simp
  then have "round_half_even (t / 2 powi ?q) = m * 2 ^ nat (k - ?q)"
    by (simp only: round_half_even_of_int)
  then have "fl t = of_int (m * 2 ^ nat (k - ?q)) * 2 powi ?q"
    using False by (simp add: fl_def)
  also have "\<dots> = of_int m * (2 powi (k - ?q) * 2 powi ?q)"
    using q by (simp add: power_int_def)
  also have "2 powi (k - ?q) * 2 powi ?q = (2::rat) powi k"
    by (simp flip: two_powi_add)
  finally show ?thesis by (simp add: t)
qed

lemma fl_error_abs:
  assumes "t \<noteq> 0"
  shows "\<bar>fl t - t\<bar> \<le> 2 powi quantum t / 2"
proof -
  let ?q = "quantum t"
  let ?n = "round_half_even (t / 2 powi ?q)"
  have "fl t - t = (of_int ?n - t / 2 powi ?q) * 2 powi ?q"
    using assms by (simp add: fl_def algebra_simps)
  then have "\<bar>fl t - t\<bar> = \<bar>of_int ?n - t / 2 powi ?q\<bar> * 2 powi ?q"
    by (simp add: abs_mult)
  also have "\<dots> \<le> (1 / 2) * 2 powi ?q"
    by (rule mult_right_mono [OF round_half_even_error]) simp
  finally show ?thesis by simp
qed

lemma fl_pos_eq:
  "0 < t \<Longrightarrow> fl t = of_int (round_half_even (t / 2 powi quantum t)) * 2 powi quantum t"
  by (simp add: fl_def)

lemma two_powi_of_int: "0 \<le> j \<Longrightarrow> (2::rat) powi j = of_int (2 ^ nat j)"
  by (simp add: power_int_def)

lemma two_powi_quot: "j \<le> k \<Longrightarrow> (2::rat) powi k / 2 powi j = of_int (2 ^ nat (k - j))"
  using two_powi_of_int [of "k - j"] by (simp add: two_powi_diff)

lemma fl_le_two_powi:
  assumes t: "0 < t" and le: "t \<le> 2 powi k" and q: "quantum t \<le> k"
  shows "fl t \<le> 2 powi k"
proof -
  let ?q = "quantum t"
  have "t / 2 powi ?q \<le> 2 powi k / 2 powi ?q"
    using le by (simp add: divide_right_mono)
  also have "\<dots> = of_int (2 ^ nat (k - ?q))"
    using q by (rule two_powi_quot)
  finally have "round_half_even (t / 2 powi ?q) \<le> 2 ^ nat (k - ?q)"
    by (rule round_half_even_le_int)
  then have "(of_int (round_half_even (t / 2 powi ?q)) :: rat) \<le> of_int (2 ^ nat (k - ?q))"
    by (simp only: of_int_le_iff)
  then have "fl t \<le> of_int (2 ^ nat (k - ?q)) * 2 powi ?q"
    unfolding fl_pos_eq [OF t] by (rule mult_right_mono) simp
  also have "\<dots> = 2 powi (k - ?q) * 2 powi ?q"
    using q by (simp add: two_powi_of_int)
  also have "\<dots> = 2 powi k" by (simp flip: two_powi_add)
  finally show ?thesis .
qed

lemma fl_ge_two_powi:
  assumes t: "0 < t" and ge: "2 powi k \<le> t" and q: "quantum t \<le> k"
  shows "2 powi k \<le> fl t"
proof -
  let ?q = "quantum t"
  have "(of_int (2 ^ nat (k - ?q)) :: rat) = 2 powi k / 2 powi ?q"
    using q by (rule two_powi_quot [symmetric])
  also have "\<dots> \<le> t / 2 powi ?q"
    using ge by (simp add: divide_right_mono)
  finally have "2 ^ nat (k - ?q) \<le> round_half_even (t / 2 powi ?q)"
    by (rule round_half_even_ge_int)
  then have "(of_int (2 ^ nat (k - ?q)) :: rat) \<le> of_int (round_half_even (t / 2 powi ?q))"
    by (simp only: of_int_le_iff)
  then have "of_int (2 ^ nat (k - ?q)) * 2 powi ?q \<le> fl t"
    unfolding fl_pos_eq [OF t] by (rule mult_right_mono) simp
  moreover have "of_int (2 ^ nat (k - ?q)) * 2 powi ?q = (2::rat) powi (k - ?q) * 2 powi ?q"
    using q by (simp add: two_powi_of_int)
  moreover have "(2::rat) powi (k - ?q) * 2 powi ?q = 2 powi k" by (simp flip: two_powi_add)
  ultimately show ?thesis by simp
qed

lemma fl_mono_pos:
  assumes s: "0 < s" and st: "s \<le> t"
  shows "fl s \<le> fl t"
proof -
  have t: "0 < t" using s st by linarith
  have qq: "quantum s \<le> quantum t" by (rule quantum_mono [OF s st])
  show ?thesis
  proof (cases "quantum s = quantum t")
    case True
    have "s / 2 powi quantum t \<le> t / 2 powi quantum t"
      using st by (simp add: divide_right_mono)
    then have "round_half_even (s / 2 powi quantum t) \<le> round_half_even (t / 2 powi quantum t)"
      by (rule round_half_even_mono)
    then have "(of_int (round_half_even (s / 2 powi quantum t)) :: rat)
        \<le> of_int (round_half_even (t / 2 powi quantum t))"
      by (simp only: of_int_le_iff)
    then show ?thesis
      unfolding fl_pos_eq [OF s] fl_pos_eq [OF t] True by (rule mult_right_mono) simp
  next
    case False
    with qq have lt: "quantum s < quantum t" by simp
    let ?e = "ilog2 t"
    have abs: "\<bar>t\<bar> = t" "\<bar>s\<bar> = s" using s t by simp_all
    from lt quantum_ge(1) [of s] have qt: "quantum t = ?e - 52"
      unfolding quantum_def abs max_def by (simp split: if_splits)
    from lt qt quantum_ge(2) [of s] have es: "ilog2 s + 1 \<le> ?e"
      by (simp add: abs)
    have "s < 2 powi (ilog2 s + 1)" using ilog2_bounds [OF s] by simp
    also have "\<dots> \<le> 2 powi ?e" using es by (rule two_powi_le)
    finally have "s \<le> 2 powi ?e" by simp
    moreover have "quantum s \<le> ?e" using lt qt by simp
    ultimately have "fl s \<le> 2 powi ?e" by (rule fl_le_two_powi [OF s])
    moreover have "2 powi ?e \<le> fl t"
      by (rule fl_ge_two_powi [OF t]) (use ilog2_bounds [OF t] qt in simp_all)
    ultimately show ?thesis by simp
  qed
qed

lemma fl_mono:
  assumes "s \<le> t"
  shows "fl s \<le> fl t"
proof -
  consider "0 < s" | "s \<le> 0" "0 \<le> t" | "t < 0" by linarith
  then show ?thesis
  proof cases
    case 1
    then show ?thesis using assms by (rule fl_mono_pos)
  next
    case 2
    have "fl (- s) \<ge> 0" using 2(1) by (intro fl_nonneg) simp
    then have "fl s \<le> 0" by (simp add: fl_minus)
    moreover have "0 \<le> fl t" using 2(2) by (rule fl_nonneg)
    ultimately show ?thesis by simp
  next
    case 3
    then have "fl (- t) \<le> fl (- s)" using assms by (intro fl_mono_pos) simp_all
    then show ?thesis by (simp add: fl_minus)
  qed
qed

lemma ilog2_two_powi [simp]: "ilog2 (2 powi k) = k"
  by (rule ilog2_unique) (simp_all add: two_powi_less)

lemma fl_two_powi: "- 1074 \<le> k \<Longrightarrow> fl (2 powi k) = 2 powi k"
  by (rule fl_grid [where m = 1]) (auto simp: quantum_def)

lemma fl_one [simp]: "fl 1 = 1"
  using fl_two_powi [of 0] by simp

lemma fl_two_power: "fl (2 ^ n) = 2 ^ n"
  using fl_two_powi [of "int n"] by simp

lemma fl_le_two_power:
  assumes "t \<le> 2 ^ n"
  shows "fl t \<le> 2 ^ n"
  using fl_mono [OF assms] by (simp add: fl_two_power)

lemma fl_ge_neg_two_power:
  assumes "- (2 ^ n) \<le> t"
  shows "- (2 ^ n) \<le> fl t"
  using fl_mono [OF assms] by (simp add: fl_minus fl_two_power)

lemma fl_ge_one: "1 \<le> t \<Longrightarrow> 1 \<le> fl t"
  using fl_mono [of 1 t] by simp

lemma fl_le_one: "t \<le> 1 \<Longrightarrow> fl t \<le> 1"
  using fl_mono [of t 1] by simp

lemma to_double_Fin:
  "- (2 ^ 1024) < fl t \<Longrightarrow> fl t < 2 ^ 1024 \<Longrightarrow> to_double t = Fin (fl t)"
  by (simp add: to_double_def Let_def)

lemma to_double_bounded:
  assumes "- (2 ^ n) \<le> t" "t \<le> 2 ^ n" "n < 1024"
  shows "to_double t = Fin (fl t)"
proof (rule to_double_Fin)
  have p: "(2::rat) ^ n < 2 ^ 1024"
    by (rule power_strict_increasing) (use assms(3) in simp_all)
  from fl_le_two_power [OF assms(2)] p show "fl t < 2 ^ 1024"
    by (rule order.strict_trans1)
  from p have "- ((2::rat) ^ 1024) < - (2 ^ n)"
    by (simp only: neg_less_iff_less)
  then show "- (2 ^ 1024) < fl t"
    using fl_ge_neg_two_power [OF assms(1)] by (rule order.strict_trans2)
qed

lemma float_of_int_bounded:
  assumes "\<bar>i\<bar> \<le> 2 ^ n" "n < 1024"
  shows "float_of_int i = Inr (Fin (fl (of_int i)))"
proof -
  have "- (2 ^ n) \<le> (of_int i :: rat)" "(of_int i :: rat) \<le> 2 ^ n"
  proof -
    from assms(1) have "- (2 ^ n) \<le> i" "i \<le> 2 ^ n" by linarith+
    then have "(of_int (- (2 ^ n)) :: rat) \<le> of_int i" "(of_int i :: rat) \<le> of_int (2 ^ n)"
      by (simp_all only: of_int_le_iff)
    then show "- (2 ^ n) \<le> (of_int i :: rat)" "(of_int i :: rat) \<le> 2 ^ n" by simp_all
  qed
  from to_double_bounded [OF this assms(2)] show ?thesis
    by (simp add: float_of_int_def)
qed

lemma of_int_bounds:
  fixes i :: int
  assumes "0 \<le> i" "i \<le> 2 ^ n"
  shows "(0::rat) \<le> of_int i" "(of_int i :: rat) \<le> 2 ^ n"
proof -
  show "(0::rat) \<le> of_int i" using assms(1) by simp
  have "(of_int i :: rat) \<le> of_int (2 ^ n)" using assms(2) by (simp only: of_int_le_iff)
  then show "(of_int i :: rat) \<le> 2 ^ n" by simp
qed

lemma swap_output_finite:
  assumes a: "0 \<le> a" "a \<le> 2 ^ 256"
    and ri: "0 < ri" "ri \<le> 2 ^ 256"
    and ro: "0 < ro" "ro \<le> 2 ^ 256"
    and fee: "0 \<le> fee" "fee \<le> 1"
  shows "calculate_swap_output a ri ro (Fin fee)
         = Inr (py_trunc (swap_value (of_int a) (of_int ri) (of_int ro) fee))"
proof -
  let ?a = "fl (of_int a)" and ?ri = "fl (of_int ri)" and ?ro = "fl (of_int ro)"
  let ?f = "fl (1 - fee)"
  let ?w = "fl (?a * ?f)"
  let ?n = "fl (?w * ?ro)"
  let ?d = "fl (?ri + ?w)"
  note ab = of_int_bounds [OF a]
  have a1: "0 \<le> ?a" "?a \<le> 2 ^ 256"
    using fl_nonneg [OF ab(1)] fl_le_two_power [OF ab(2)] by simp_all
  have ri0: "(1::rat) \<le> of_int ri" using ri(1) by simp
  note rib = of_int_bounds [OF order.strict_implies_order [OF ri(1)] ri(2)]
  have ri1: "1 \<le> ?ri" "?ri \<le> 2 ^ 256"
    using fl_ge_one [OF ri0] fl_le_two_power [OF rib(2)] by simp_all
  have ro0: "(1::rat) \<le> of_int ro" using ro(1) by simp
  note rob = of_int_bounds [OF order.strict_implies_order [OF ro(1)] ro(2)]
  have ro1: "1 \<le> ?ro" "?ro \<le> 2 ^ 256"
    using fl_ge_one [OF ro0] fl_le_two_power [OF rob(2)] by simp_all
  have f1: "0 \<le> ?f" "?f \<le> 1"
    using fee by (simp_all add: fl_nonneg fl_le_one)
  have af: "0 \<le> ?a * ?f" "?a * ?f \<le> 2 ^ 256"
  proof -
    show "0 \<le> ?a * ?f" using a1(1) f1(1) by simp
    have "?a * ?f \<le> ?a * 1" using f1(2) a1(1) by (rule mult_left_mono)
    with a1(2) show "?a * ?f \<le> 2 ^ 256" by simp
  qed
  have w1: "0 \<le> ?w" "?w \<le> 2 ^ 256"
    using fl_nonneg [OF af(1)] fl_le_two_power [OF af(2)] by simp_all
  have wr: "0 \<le> ?w * ?ro" "?w * ?ro \<le> 2 ^ 512"
  proof -
    show "0 \<le> ?w * ?ro" using w1(1) ro1(1) by simp
    have "?w * ?ro \<le> 2 ^ 256 * 2 ^ 256"
      using w1 ro1 by (intro mult_mono) simp_all
    then show "?w * ?ro \<le> 2 ^ 512" by (simp flip: power_add)
  qed
  have n1: "0 \<le> ?n" "?n \<le> 2 ^ 512"
    using fl_nonneg [OF wr(1)] fl_le_two_power [OF wr(2)] by simp_all
  have s: "1 \<le> ?ri + ?w" "?ri + ?w \<le> 2 ^ 257"
    using ri1 w1 by simp_all
  have d1: "1 \<le> ?d" "?d \<le> 2 ^ 257"
    using fl_ge_one [OF s(1)] fl_le_two_power [OF s(2)] by simp_all
  have q: "0 \<le> ?n / ?d" "?n / ?d \<le> 2 ^ 512"
  proof -
    show "0 \<le> ?n / ?d" using n1(1) d1(1) by simp
    have "?n / ?d \<le> ?n / 1"
      using d1(1) n1(1) by (intro divide_left_mono) simp_all
    with n1(2) show "?n / ?d \<le> 2 ^ 512" by simp
  qed
  have neg: "- (2 ^ n) \<le> t" if "0 \<le> t" for t :: rat and n :: nat
    using that by (rule order.trans [rotated]) simp
  have e1: "float_of_int a = Inr (Fin ?a)"
    by (rule float_of_int_bounded [where n = 256]) (use a in simp_all)
  have e2: "float_of_int ro = Inr (Fin ?ro)"
    by (rule float_of_int_bounded [where n = 256]) (use ro in simp_all)
  have e3: "float_of_int ri = Inr (Fin ?ri)"
    by (rule float_of_int_bounded [where n = 256]) (use ri in simp_all)
  have e4: "fsub (Fin 1) (Fin fee) = Fin ?f"
  proof -
    have "to_double (1 - fee) = Fin ?f"
      by (rule to_double_bounded [where n = 0]) (use fee in simp_all)
    then show ?thesis by (simp add: fsub_def)
  qed
  have e5: "to_double (?a * ?f) = Fin ?w"
    by (rule to_double_bounded [OF neg [OF af(1)] af(2)]) simp
  have e6: "to_double (?w * ?ro) = Fin ?n"
    by (rule to_double_bounded [OF neg [OF wr(1)] wr(2)]) simp
  have e7: "to_double (?ri + ?w) = Fin ?d"
    by (rule to_double_bounded [OF neg [OF order.trans [OF zero_le_one s(1)]] s(2)]) simp
  have e8: "to_double (?n / ?d) = Fin (fl (?n / ?d))"
    by (rule to_double_bounded [OF neg [OF q(1)] q(2)]) simp
  have d0: "?d \<noteq> 0" using d1(1) by simp
  have "ri \<noteq> 0" "ro \<noteq> 0" using ri(1) ro(1) by simp_all
  then show ?thesis
    by (simp add: calculate_swap_output_def e1 e2 e3 e4 e5 e6 e7 e8 d0 fdiv_def swap_value_def Let_def)
qed

lemma lit_unit: "0 \<le> d \<Longrightarrow> d \<le> 1 \<Longrightarrow> lit d = Fin (fl d)"
  unfolding lit_def by (rule to_double_bounded [where n = 0]) simp_all

lemma swap_output_lit:
  assumes "0 \<le> a" "a \<le> 2 ^ 256" "0 < ri" "ri \<le> 2 ^ 256" "0 < ro" "ro \<le> 2 ^ 256"
    "0 \<le> d" "d \<le> 1"
  shows "calculate_swap_output a ri ro (lit d)
         = Inr (py_trunc (swap_value (of_int a) (of_int ri) (of_int ro) (fl d)))"
  unfolding lit_unit [OF assms(7,8)]
  using assms by (intro swap_output_finite) (simp_all add: fl_nonneg fl_le_one)

lemma swap_value_a1:
  "py_trunc (swap_value 1000000000000000000 1000000000000000000000 2000000000000000000000000
     (fl (3 / 1000))) = 1992013962079806423040"
  by code_simp

lemma swap_value_b2:
  "py_trunc (swap_value 1992013962079806423040 2100000000000000000000000 1000000000000000000000
     (fl (3 / 1000))) = 944838778357751808"
  by code_simp

lemma swap_value_b1:
  "py_trunc (swap_value 1000000000000000000 1000000000000000000000 2100000000000000000000000
     (fl (3 / 1000))) = 2091614660183796744192"
  by code_simp

lemma swap_value_a2:
  "py_trunc (swap_value 2091614660183796744192 2000000000000000000000000 1000000000000000000000
     (fl (3 / 1000))) = 1041583879933252608"
  by code_simp

lemma swap_a1:
  "calculate_swap_output 1000000000000000000 1000000000000000000000 2000000000000000000000000
     (lit (3 / 1000)) = Inr 1992013962079806423040"
  using swap_output_lit [of 1000000000000000000 1000000000000000000000
      2000000000000000000000000 "3 / 1000"] swap_value_a1
  by simp

lemma swap_b2:
  "calculate_swap_output 1992013962079806423040 2100000000000000000000000 1000000000000000000000
     (lit (3 / 1000)) = Inr 944838778357751808"
  using swap_output_lit [of 1992013962079806423040 2100000000000000000000000
      1000000000000000000000 "3 / 1000"] swap_value_b2
  by simp

lemma swap_b1:
  "calculate_swap_output 1000000000000000000 1000000000000000000000 2100000000000000000000000
     (lit (3 / 1000)) = Inr 2091614660183796744192"
  using swap_output_lit [of 1000000000000000000 1000000000000000000000
      2100000000000000000000000 "3 / 1000"] swap_value_b1
  by simp

lemma swap_a2:
  "calculate_swap_output 2091614660183796744192 2000000000000000000000000 1000000000000000000000
     (lit (3 / 1000)) = Inr 1041583879933252608"
  using swap_output_lit [of 2091614660183796744192 2000000000000000000000000
      1000000000000000000000 "3 / 1000"] swap_value_a2
  by simp

lemma dex_config_of_v2:
  "dex_config_of ''uniswap_v2'' = Inr (snd (dex_configs ! 0))"
  "dex_config_of ''sushiswap'' = Inr (snd (dex_configs ! 2))"
  by (simp_all add: dex_config_of_def dex_configs_def)

lemma dex_fee_v2:
  "dex_fee (snd (dex_configs ! 0)) = Some (lit (3 / 1000))"
  "dex_fee (snd (dex_configs ! 2)) = Some (lit (3 / 1000))"
  "router (snd (dex_configs ! 0)) = ''0x4752ba5DBc23f44D87826276BF6Fd6b1C372aD24''"
  "router (snd (dex_configs ! 2)) = ''0x6BDED42c6DA8FBf0d2bA55B2fa120C5e0c8D7891''"
  by (simp_all add: dex_configs_def)

lemma check_ab:
  "check_arbitrage_opportunity (\<lambda>a. a) now weth pool_a pool_b
     (snd (dex_configs ! 0)) (snd (dex_configs ! 2)) = Inr None"
  by (simp add: check_arbitrage_opportunity_def pool_a_def pool_b_def get_or_def dex_fee_v2
      swap_a1 swap_b2 weth_def usdc_def Let_def)

lemma check_ba:
  "check_arbitrage_opportunity (\<lambda>a. a) now weth pool_b pool_a
     (snd (dex_configs ! 2)) (snd (dex_configs ! 0)) = Inr (Some (route_ba now))"
  by (simp add: check_arbitrage_opportunity_def pool_a_def pool_b_def get_or_def dex_fee_v2
      swap_b1 swap_a2 weth_def usdc_def Let_def route_ba_def encode_swap_data_def)

lemma scenario_routes_cpu:
  "calculate_routes_cpu (\<lambda>a. a) now [weth] scenario_pools = Inr [route_ba now]"
proof -
  have t: "Some weth \<in> set [token0 pool_a, token1 pool_a]"
    "Some weth \<in> set [token0 pool_b, token1 pool_b]"
    by (simp_all add: pool_a_def pool_b_def)
  have n: "0 < net_profit (route_ba now)" by (simp add: route_ba_def)
  show ?thesis
    unfolding calculate_routes_cpu_def scenario_pools_def
    using t n by (simp add: dex_config_of_v2 check_ab check_ba)
qed

lemma collect_member:
  assumes "collect f xs = Inr ys" and "y \<in> set ys"
  shows "\<exists>x\<in>set xs. \<exists>zs. f x = Inr zs \<and> y \<in> set zs"
  using assms
proof (induction xs arbitrary: ys)
  case Nil
  then show ?case by simp
next
  case (Cons x xs)
  from Cons.prems(1) obtain zs ws where f: "f x = Inr zs" and c: "collect f xs = Inr ws"
    and ys: "ys = zs @ ws"
    by (auto split: sum.splits)
  from Cons.prems(2) ys have "y \<in> set zs \<or> y \<in> set ws" by simp
  then show ?case
  proof
    assume "y \<in> set zs"
    with f show ?thesis by auto
  next
    assume "y \<in> set ws"
    from Cons.IH [OF c this] show ?thesis by auto
  qed
qed

lemma calculate_routes_cpu_positive:
  assumes "calculate_routes_cpu keccak_hex now tokens pools = Inr routes" and "r \<in> set routes"
  shows "0 < net_profit r"
proof -
  from collect_member [OF assms [unfolded calculate_routes_cpu_def]]
  obtain tok rs1 where 1: "collect (\<lambda>(dex1_name, dex1_pools).
         collect (\<lambda>(dex2_name, dex2_pools).
           if dex1_name = dex2_name then Inr []
           else
             collect (\<lambda>pool1.
               if Some tok \<notin> set [token0 pool1, token1 pool1] then Inr []
               else
                 collect (\<lambda>pool2.
                   bind (dex_config_of dex1_name) (\<lambda>dex1_config.
                   bind (dex_config_of dex2_name) (\<lambda>dex2_config.
                   bind (check_arbitrage_opportunity keccak_hex now tok pool1 pool2
                           dex1_config dex2_config) (\<lambda>route.
                   case route of
                     None \<Rightarrow> Inr []
                   | Some r \<Rightarrow> if 0 < net_profit r then Inr [r] else Inr []))))
                 dex2_pools)
             dex1_pools)
         pools) pools = Inr rs1" and r1: "r \<in> set rs1"
    by blast
  from collect_member [OF 1 r1]
  obtain d1 p1s rs2 where 2: "collect (\<lambda>(dex2_name, dex2_pools).
           if d1 = dex2_name then Inr []
           else
             collect (\<lambda>pool1.
               if Some tok \<notin> set [token0 pool1, token1 pool1] then Inr []
               else
                 collect (\<lambda>pool2.
                   bind (dex_config_of d1) (\<lambda>dex1_config.
                   bind (dex_config_of dex2_name) (\<lambda>dex2_config.
                   bind (check_arbitrage_opportunity keccak_hex now tok pool1 pool2
                           dex1_config dex2_config) (\<lambda>route.
                   case route of
                     None \<Rightarrow> Inr []
                   | Some r \<Rightarrow> if 0 < net_profit r then Inr [r] else Inr []))))
                 dex2_pools)
             p1s)
         pools = Inr rs2" and r2: "r \<in> set rs2"
    by auto
  from collect_member [OF 2 r2]
  obtain d2 p2s rs3 where 3: "collect (\<lambda>pool1.
               if Some tok \<notin> set [token0 pool1, token1 pool1] then Inr []
               else
                 collect (\<lambda>pool2.
                   bind (dex_config_of d1) (\<lambda>dex1_config.
                   bind (dex_config_of d2) (\<lambda>dex2_config.
                   bind (check_arbitrage_opportunity keccak_hex now tok pool1 pool2
                           dex1_config dex2_config) (\<lambda>route.
                   case route of
                     None \<Rightarrow> Inr []
                   | Some r \<Rightarrow> if 0 < net_profit r then Inr [r] else Inr []))))
                 p2s)
             p1s = Inr rs3" and r3: "r \<in> set rs3"
    by (auto split: if_splits)
  from collect_member [OF 3 r3]
  obtain pool1 rs4 where 4: "collect (\<lambda>pool2.
                   bind (dex_config_of d1) (\<lambda>dex1_config.
                   bind (dex_config_of d2) (\<lambda>dex2_config.
                   bind (check_arbitrage_opportunity keccak_hex now tok pool1 pool2
                           dex1_config dex2_config) (\<lambda>route.
                   case route of
                     None \<Rightarrow> Inr []
                   | Some r \<Rightarrow> if 0 < net_profit r then Inr [r] else Inr []))))
                 p2s = Inr rs4" and r4: "r \<in> set rs4"
    by (auto split: if_splits)
  from collect_member [OF 4 r4] show ?thesis
    by (auto simp: bind_eq_Inr split: option.splits if_splits)
qed

lemma put_all_unbounded:
  "maxsize q \<le> 0 \<Longrightarrow> put_all q xs = Some (q\<lparr>items := items q @ xs\<rparr>)"
proof (induction xs arbitrary: q)
  case Nil
  then show ?case by simp
next
  case (Cons x xs)
  have "queue_put q x = Some (q\<lparr>items := items q @ [x]\<rparr>)"
    using Cons.prems by (simp add: queue_put_def queue_full_def)
  moreover have "maxsize (q\<lparr>items := items q @ [x]\<rparr>) \<le> 0" using Cons.prems by simp
  ultimately show ?case using Cons.IH [of "q\<lparr>items := items q @ [x]\<rparr>"] by simp
qed

lemma put_all_items:
  "put_all q xs = Some q' \<Longrightarrow> items q' = items q @ xs \<and> maxsize q' = maxsize q"
proof (induction xs arbitrary: q)
  case Nil
  then show ?case by simp
next
  case (Cons x xs)
  from Cons.prems obtain q1 where p: "queue_put q x = Some q1" and r: "put_all q1 xs = Some q'"
    by (auto split: option.splits)
  from p have "items q1 = items q @ [x]" "maxsize q1 = maxsize q"
    by (auto simp: queue_put_def split: if_splits)
  with Cons.IH [OF r] show ?case by simp
qed

lemma scanner_init_channel:
  "profitable_routes (scanner_init cfg g toks) = \<lparr>maxsize = 0, items = []\<rparr>"
  by (simp add: scanner_init_def new_queue_def)

text \<open>
  C3 (as amended). The opportunity channel is the unbounded \<^verbatim>\<open>asyncio.Queue()\<close>: it is
  created with \<open>maxsize = 0\<close>, and on such a queue \<^verbatim>\<open>analyze_block\<close> never waits and never
  drops: whenever the route computation returns, every route above the threshold is
  appended behind the items already queued, in order, and the only warning it logs is the
  one for an analysis that took more than a second.
\<close>

theorem analyze_block_publishes_all:
  assumes "maxsize (profitable_routes s) \<le> 0"
    and "calculate_arbitrage_routes (scanner_gpu_available s) (scanner_config s) keccak_hex now
           (scanner_tokens s) pools = Inr routes"
  shows "maxsize (profitable_routes (scanner_init cfg g toks)) = 0
    \<and> (\<exists>s'. analyze_block keccak_hex now elapsed pools s = Inr (Some s')
          \<and> items (profitable_routes s')
              = items (profitable_routes s)
                @ filter (\<lambda>r. min_profit_threshold (scanner_config s) < net_profit r) routes
          \<and> maxsize (profitable_routes s') = maxsize (profitable_routes s)
          \<and> scanner_log s'
              = scanner_log s
                @ (if filter (\<lambda>r. min_profit_threshold (scanner_config s) < net_profit r) routes \<noteq> []
                   then [(Info, ''Found profitable routes'')] else [])
                @ (if 1 < elapsed then [(Warning, ''Block analysis took long'')] else []))"
  using assms
  by (simp add: analyze_block_def put_all_unbounded scanner_init_channel Let_def)

lemma scenario_routes:
  "calculate_arbitrage_routes False scenario_config (\<lambda>a. a) 0 [weth] scenario_pools
   = Inr [route_ba 0]"
  by (simp add: calculate_arbitrage_routes_def scenario_routes_cpu)

theorem analyze_block_publishes_all_witness:
  "\<exists>s'. analyze_block (\<lambda>a. a) 0 0 scenario_pools (scanner_init scenario_config False [weth])
           = Inr (Some s')
        \<and> items (profitable_routes s') = [route_ba 0]
        \<and> scanner_log s' = [(Info, ''Found profitable routes'')]"
proof -
  let ?s = "scanner_init scenario_config False [weth]"
  have h1: "maxsize (profitable_routes ?s) \<le> 0"
    by (simp add: scanner_init_channel)
  have h2: "calculate_arbitrage_routes (scanner_gpu_available ?s) (scanner_config ?s) (\<lambda>a. a) 0
              (scanner_tokens ?s) scenario_pools = Inr [route_ba 0]"
    using scenario_routes by (simp add: scanner_init_def)
  have f: "filter (\<lambda>r. min_profit_threshold (scanner_config ?s) < net_profit r) [route_ba 0]
           = [route_ba 0]"
    by (simp add: scanner_init_def scenario_config_def route_ba_def)
  have l: "items (profitable_routes ?s) = []" "scanner_log ?s = []"
    by (simp_all add: scanner_init_def new_queue_def)
  from analyze_block_publishes_all [OF h1 h2, of scenario_config False "[weth]" 0]
  show ?thesis
    unfolding f l by auto
qed

theorem channel_capacity_counterexample:
  "put_all (profitable_routes (scanner_init scenario_config False [weth]))
     (route_ba 0 # replicate 999 (route_ba 1))
   = Some \<lparr>maxsize = 0, items = route_ba 0 # replicate 999 (route_ba 1)\<rparr>"
  by (subst put_all_unbounded) (simp_all add: scanner_init_channel)

lemma fl_of_int_exact:
  assumes "\<bar>i\<bar> \<le> 2 ^ 53"
  shows "fl (of_int i) = of_int i"
proof (cases "\<bar>i\<bar> = 2 ^ 53")
  case True
  then have "i = 2 ^ 53 \<or> i = - (2 ^ 53)" by linarith
  then show ?thesis
    using fl_two_power [of 53] by (auto simp: fl_minus)
next
  case False
  with assms have lt: "\<bar>i\<bar> < 2 ^ 53" by simp
  show ?thesis
  proof (cases "i = 0")
    case True
    then show ?thesis by simp
  next
    case False
    let ?t = "of_int i :: rat"
    have pos: "0 < \<bar>?t\<bar>" using False by simp
    have "\<bar>?t\<bar> = of_int \<bar>i\<bar>" by simp
    also have "\<dots> < of_int (2 ^ 53)" using lt by (simp only: of_int_less_iff)
    finally have u: "\<bar>?t\<bar> < 2 powi 53" by simp
    have "ilog2 \<bar>?t\<bar> < 53"
    proof (rule ccontr)
      assume "\<not> ilog2 \<bar>?t\<bar> < 53"
      then have "(2::rat) powi 53 \<le> 2 powi ilog2 \<bar>?t\<bar>" by (intro two_powi_le) simp
      with ilog2_bounds [OF pos] u show False by linarith
    qed
    then have q: "quantum ?t \<le> 0" by (simp add: quantum_def)
    show ?thesis by (rule fl_grid [where m = i and k = 0]) (simp_all add: q)
  qed
qed

lemma float_of_int_exact:
  assumes "\<bar>i\<bar> \<le> 2 ^ 53"
  shows "float_of_int i = Inr (Fin (of_int i))"
  using float_of_int_bounded [OF assms] fl_of_int_exact [OF assms] by simp

lemma to_double_of_int_exact:
  assumes "\<bar>i\<bar> \<le> 2 ^ 53"
  shows "to_double (of_int i) = Fin (of_int i)"
  using float_of_int_exact [OF assms] by (simp add: float_of_int_def split: pyfloat.splits)

lemma pool_row_a:
  "\<exists>r0 r1. pool_row pool_a = Inr (Fin r0, Fin r1, lit (3 / 1000))"
proof -
  have "float_of_int 1000000000000000000000 = Inr (Fin (fl (of_int 1000000000000000000000)))"
    by (rule float_of_int_bounded [where n = 256]) simp_all
  moreover have "float_of_int 2000000000000000000000000
      = Inr (Fin (fl (of_int 2000000000000000000000000)))"
    by (rule float_of_int_bounded [where n = 256]) simp_all
  ultimately show ?thesis
    by (simp add: pool_row_def pool_a_def get_or_def)
qed

lemma gpu_diagonal:
  "calculate_routes_gpu True negative_threshold_config (\<lambda>a. a) 0 [weth] [(''uniswap_v2'', [pool_a])]
   = Inr [diagonal_route]"
proof -
  from pool_row_a obtain r0 r1 where r: "pool_row pool_a = Inr (Fin r0, Fin r1, lit (3 / 1000))"
    by blast
  have rows: "pool_array [(''uniswap_v2'', [pool_a])] = Inr [(Fin r0, Fin r1, lit (3 / 1000))]"
    by (simp add: pool_array_def r)
  have t: "float_of_int (- 3000000) = Inr (Fin (- 3000000))"
    using float_of_int_exact [of "- 3000000"] by simp
  have n: "to_double (- 2000000) = Fin (- 2000000)"
    using to_double_of_int_exact [of "- 2000000"] by simp
  have g: "gpu_route negative_threshold_config 0 [weth] (Fin 0) = Inr [diagonal_route]"
    by (simp add: gpu_route_def negative_threshold_config_def t n fsub_def py_trunc_def
        diagonal_route_def dex_configs_def)
  show ?thesis
    by (simp add: calculate_routes_gpu_def rows gpu_profit_def g)
qed

theorem net_profit_positive_counterexample:
  "analyze_block (\<lambda>a. a) 0 0 [(''uniswap_v2'', [pool_a])]
     (scanner_init negative_threshold_config True [weth])
   = Inr (Some ((scanner_init negative_threshold_config True [weth])
        \<lparr>profitable_routes := \<lparr>maxsize = 0, items = [diagonal_route]\<rparr>,
         scanner_log := [(Info, ''Found profitable routes'')]\<rparr>))
   \<and> net_profit diagonal_route = - 2000000"
proof -
  let ?s = "scanner_init negative_threshold_config True [weth]"
  have c: "calculate_arbitrage_routes (scanner_gpu_available ?s) (scanner_config ?s) (\<lambda>a. a) 0
             (scanner_tokens ?s) [(''uniswap_v2'', [pool_a])] = Inr [diagonal_route]"
    using gpu_diagonal
    by (simp add: calculate_arbitrage_routes_def scanner_init_def negative_threshold_config_def)
  have f: "filter (\<lambda>r. min_profit_threshold (scanner_config ?s) < net_profit r) [diagonal_route]
           = [diagonal_route]"
    by (simp add: scanner_init_def negative_threshold_config_def diagonal_route_def)
  have p: "put_all (profitable_routes ?s) [diagonal_route]
           = Some \<lparr>maxsize = 0, items = [diagonal_route]\<rparr>"
    by (subst put_all_unbounded) (simp_all add: scanner_init_channel)
  have "analyze_block (\<lambda>a. a) 0 0 [(''uniswap_v2'', [pool_a])] ?s
     = Inr (Some (?s\<lparr>profitable_routes := \<lparr>maxsize = 0, items = [diagonal_route]\<rparr>,
         scanner_log := scanner_log ?s @ [(Info, ''Found profitable routes'')] @ []\<rparr>))"
    unfolding analyze_block_def c bind_Inr Let_def f p by simp
  then show ?thesis
    by (simp add: scanner_init_def diagonal_route_def)
qed

text \<open>
  C4 (as amended). Every route that \<^verbatim>\<open>analyze_block\<close> puts on the opportunity channel has
  \<open>net_profit > min_profit_threshold\<close>; so it has \<open>net_profit > 0\<close> whenever the configured
  threshold is not negative, and also, for any threshold, whenever the routes come from the
  CPU computation, which keeps strictly profitable routes only.
\<close>

theorem published_routes_profitable:
  assumes "analyze_block keccak_hex now elapsed pools s = Inr (Some s')"
  shows "\<exists>new. items (profitable_routes s') = items (profitable_routes s) @ new
           \<and> (\<forall>r\<in>set new.
                 min_profit_threshold (scanner_config s) < net_profit r
                 \<and> (0 \<le> min_profit_threshold (scanner_config s)
                     \<or> \<not> (use_gpu (scanner_config s) \<and> scanner_gpu_available s)
                    \<longrightarrow> 0 < net_profit r))"
proof -
  let ?thr = "min_profit_threshold (scanner_config s)"
  from assms obtain routes q where
    c: "calculate_arbitrage_routes (scanner_gpu_available s) (scanner_config s) keccak_hex now
          (scanner_tokens s) pools = Inr routes"
    and p: "put_all (profitable_routes s) (filter (\<lambda>r. ?thr < net_profit r) routes) = Some q"
    and s': "profitable_routes s' = q"
    by (auto simp: analyze_block_def bind_eq_Inr Let_def split: option.splits)
  let ?new = "filter (\<lambda>r. ?thr < net_profit r) routes"
  from put_all_items [OF p] s' have i: "items (profitable_routes s') = items (profitable_routes s) @ ?new"
    by simp
  have "\<forall>r\<in>set ?new. ?thr < net_profit r
          \<and> (0 \<le> ?thr \<or> \<not> (use_gpu (scanner_config s) \<and> scanner_gpu_available s)
              \<longrightarrow> 0 < net_profit r)"
  proof (intro ballI conjI impI)
    fix r assume r: "r \<in> set ?new"
    then show t: "?thr < net_profit r" by simp
    assume "0 \<le> ?thr \<or> \<not> (use_gpu (scanner_config s) \<and> scanner_gpu_available s)"
    then show "0 < net_profit r"
    proof
      assume "0 \<le> ?thr"
      with t show ?thesis by linarith
    next
      assume "\<not> (use_gpu (scanner_config s) \<and> scanner_gpu_available s)"
      with c have "calculate_routes_cpu keccak_hex now (scanner_tokens s) pools = Inr routes"
        by (simp add: calculate_arbitrage_routes_def)
      moreover from r have "r \<in> set routes" by simp
      ultimately show ?thesis by (rule calculate_routes_cpu_positive)
    qed
  qed
  with i show ?thesis by blast
qed

lemma scenario_analyze_block:
  "analyze_block (\<lambda>a. a) 0 0 scenario_pools (scanner_init scenario_config False [weth])
   = Inr (Some ((scanner_init scenario_config False [weth])
        \<lparr>profitable_routes := \<lparr>maxsize = 0, items = [route_ba 0]\<rparr>,
         scanner_log := [(Info, ''Found profitable routes'')]\<rparr>))"
proof -
  let ?s = "scanner_init scenario_config False [weth]"
  have c: "calculate_arbitrage_routes (scanner_gpu_available ?s) (scanner_config ?s) (\<lambda>a. a) 0
              (scanner_tokens ?s) scenario_pools = Inr [route_ba 0]"
    using scenario_routes by (simp add: scanner_init_def)
  have f: "filter (\<lambda>r. min_profit_threshold (scanner_config ?s) < net_profit r) [route_ba 0]
           = [route_ba 0]"
    by (simp add: scanner_init_def scenario_config_def route_ba_def)
  have p: "put_all (profitable_routes ?s) [route_ba 0] = Some \<lparr>maxsize = 0, items = [route_ba 0]\<rparr>"
    by (subst put_all_unbounded) (simp_all add: scanner_init_channel)
  have "analyze_block (\<lambda>a. a) 0 0 scenario_pools ?s
     = Inr (Some (?s\<lparr>profitable_routes := \<lparr>maxsize = 0, items = [route_ba 0]\<rparr>,
         scanner_log := scanner_log ?s @ [(Info, ''Found profitable routes'')] @ []\<rparr>))"
    unfolding analyze_block_def c bind_Inr Let_def f p by simp
  then show ?thesis by (simp add: scanner_init_def)
qed

theorem published_routes_profitable_witness:
  "\<exists>new. new \<noteq> [] \<and> (\<forall>r\<in>set new. 10000000000000000 < net_profit r \<and> 0 < net_profit r)
      \<and> items (profitable_routes ((scanner_init scenario_config False [weth])
            \<lparr>profitable_routes := \<lparr>maxsize = 0, items = [route_ba 0]\<rparr>,
             scanner_log := [(Info, ''Found profitable routes'')]\<rparr>)) = new"
  using published_routes_profitable [OF scenario_analyze_block]
  by (simp add: scanner_init_def scenario_config_def new_queue_def)

section \<open>The gas price\<close>

lemma lit_three_halves: "lit (3 / 2) = Fin (3 / 2)"
proof -
  have "fl (of_int 3 * 2 powi (- 1)) = of_int 3 * 2 powi (- 1)"
  proof (rule fl_grid [OF refl])
    have "ilog2 \<bar>3 / 2 :: rat\<bar> = 0" by (rule ilog2_unique) simp_all
    then show "quantum (of_int 3 * 2 powi (- 1)) \<le> - 1"
      by (simp add: quantum_def power_int_minus)
  qed
  then have f: "fl (3 / 2) = 3 / 2" by (simp add: power_int_minus)
  have "to_double (3 / 2) = Fin (fl (3 / 2))"
    by (rule to_double_bounded [where n = 1]) simp_all
  then show ?thesis by (simp add: lit_def f)
qed

text \<open>\<^verbatim>\<open>int(base_fee * 1.5)\<close> is exact while \<open>1.5 * base_fee\<close> needs no more than 53 bits.\<close>

lemma base_fee_markup:
  assumes "0 < b" "3 * b < 2 ^ 53"
  shows "bind (float_of_int b) (\<lambda>x. py_int (fmul x (lit (3 / 2)))) = Inr (3 * b div 2)"
proof -
  have b53: "\<bar>b\<bar> \<le> 2 ^ 53" using assms by simp
  let ?t = "of_int (3 * b) * 2 powi (- 1) :: rat"
  have t: "?t = of_int b * (3 / 2)" by (simp add: power_int_minus)
  have pos: "0 < ?t" using assms(1) by (simp add: power_int_minus)
  have "(of_int (3 * b) :: rat) < of_int (2 ^ 53)" using assms(2) by (simp only: of_int_less_iff)
  then have lt: "?t < 2 powi 52" by (simp add: power_int_minus)
  have "ilog2 ?t < 52"
  proof (rule ccontr)
    assume "\<not> ilog2 ?t < 52"
    then have "(2::rat) powi 52 \<le> 2 powi ilog2 ?t" by (intro two_powi_le) simp
    with ilog2_bounds [OF pos] lt show False by linarith
  qed
  then have q: "quantum ?t \<le> - 1" using pos by (simp add: quantum_def abs_of_pos)
  have f: "fl ?t = ?t" by (rule fl_grid [OF refl q])
  have "0 \<le> ?t" "?t \<le> 2 ^ 52" using pos lt by simp_all
  then have d: "to_double ?t = Fin (fl ?t)"
    by (intro to_double_bounded [where n = 52]) simp_all
  have tr: "py_trunc (of_int b * (3 / 2)) = 3 * b div 2"
  proof -
    have "(of_int b * (3 / 2) :: rat) = of_int (3 * b) / of_int 2" by simp
    then have "\<lfloor>of_int b * (3 / 2) :: rat\<rfloor> = 3 * b div 2"
      by (simp only: floor_divide_of_int_eq)
    moreover have "0 \<le> (of_int b * (3 / 2) :: rat)" using assms(1) by simp
    ultimately show ?thesis by (simp add: py_trunc_def)
  qed
  have d': "to_double (of_int b * (3 / 2)) = Fin (of_int b * (3 / 2))"
    using d unfolding f unfolding t .
  have "bind (float_of_int b) (\<lambda>x. py_int (fmul x (lit (3 / 2))))
      = py_int (fmul (Fin (of_int b)) (Fin (3 / 2)))"
    unfolding float_of_int_exact [OF b53] lit_three_halves bind_Inr ..
  also have "\<dots> = Inr (py_trunc (of_int b * (3 / 2)))"
    unfolding fmul.simps d' py_int.simps ..
  finally show ?thesis unfolding tr .
qed

lemma cap_tip: "py_trunc (fl (100000000000 * fl (1 / 5))) = 20000000000"
  by code_simp

lemma scenario_cancel_transaction:
  "cancel_transaction (executor_init scenario_config urls n) scenario_pending = Inr scenario_cancel"
proof -
  have m: "max_gas_price (executor_init scenario_config urls n) = 100000000000"
    by (simp add: executor_init_def scenario_config_def)
  have f: "float_of_int 100000000000 = Inr (Fin 100000000000)"
    using float_of_int_exact [of 100000000000] by simp
  have fee: "bind (float_of_int 100000000000) (\<lambda>x. py_int (fmul x (lit (3 / 2))))
      = Inr 150000000000"
    using base_fee_markup [of 100000000000] by simp
  then have fee': "py_int (fmul (Fin 100000000000) (lit (3 / 2))) = Inr 150000000000"
    unfolding f bind_Inr .
  have l: "lit (1 / 5) = Fin (fl (1 / 5))" by (rule lit_unit) simp_all
  have "(0::rat) \<le> fl (1 / 5)" "fl (1 / 5) \<le> (1::rat)"
    by (simp_all add: fl_nonneg fl_le_one)
  then have "- (2 ^ 40) \<le> 100000000000 * fl (1 / 5)" "100000000000 * fl (1 / 5) \<le> 2 ^ 40"
    by simp_all
  then have "to_double (100000000000 * fl (1 / 5)) = Fin (fl (100000000000 * fl (1 / 5)))"
    by (rule to_double_bounded) simp
  then have tip: "py_int (fmul (Fin 100000000000) (lit (1 / 5))) = Inr 20000000000"
    unfolding l fmul.simps by (simp add: cap_tip)
  show ?thesis
    unfolding cancel_transaction_def m f bind_Inr fee' tip
    by (simp add: scenario_cancel_def scenario_pending_def executor_init_def scenario_config_def)
qed

lemma get_gas_price_le_cap: "fst (get_gas_price node s) \<le> max_gas_price s"
  by (simp add: get_gas_price_def split: sum.splits)

lemma refine_gas_max_fee:
  "tx_max_fee_per_gas (fst (refine_gas node t s)) = tx_max_fee_per_gas t"
  by (simp add: refine_gas_def split: sum.splits)

lemma submitted_tx_max_fee:
  "tx_max_fee_per_gas (submitted_tx node route s) = fst (get_gas_price node s)"
  by (simp add: submitted_tx_def refine_gas_max_fee split: prod.splits)

lemma get_gas_price_base_fee:
  assumes "latest_block node = Inr (Some b)" "0 < b" "3 * b < 2 ^ 53"
  shows "get_gas_price node s = (min (3 * b div 2) (max_gas_price s), s)"
proof -
  have "b \<noteq> 0" using assms(2) by simp
  then show ?thesis
    unfolding get_gas_price_def assms(1) bind_Inr get_or_def option.case Let_def
    by (simp add: base_fee_markup [OF assms(2,3)])
qed

lemma get_gas_price_legacy:
  assumes "latest_block node = Inr None \<or> latest_block node = Inr (Some 0)"
    "node_gas_price node = Inr g"
  shows "get_gas_price node s = (min g (max_gas_price s), s)"
  using assms by (auto simp: get_gas_price_def get_or_def)

lemma get_gas_price_failure:
  assumes "latest_block node = Inl e
     \<or> (latest_block node = Inr None \<or> latest_block node = Inr (Some 0))
        \<and> node_gas_price node = Inl e"
  shows "get_gas_price node s
     = (min (30 * 10 ^ 9) (max_gas_price s), log_msg Warning ''Gas price fetch failed'' s)"
  using assms by (auto simp: get_gas_price_def get_or_def)

text \<open>
  C10. Every value returned by \<^verbatim>\<open>get_gas_price\<close> is at most \<^verbatim>\<open>self.max_gas_price\<close>, which
  \<^verbatim>\<open>__init__\<close> sets to \<open>max_gas_price_gwei * 10 ^ 9\<close> and \<^verbatim>\<open>get_gas_price\<close> does not
  change. With a base fee \<open>b\<close> in the latest block the value is \<open>min \<lfloor>3 b / 2\<rfloor> cap\<close> (the
  float product \<^verbatim>\<open>base_fee * 1.5\<close> is exact while \<open>3 b < 2 ^ 53\<close>); without one it is the
  gas price of the node, capped; when a fetch fails it is \<open>min (30 * 10 ^ 9) cap\<close>. So the
  transaction that \<^verbatim>\<open>execute_arbitrage\<close> prepares has \<^verbatim>\<open>maxFeePerGas\<close> at most the cap.
\<close>

theorem get_gas_price_capped:
  "fst (get_gas_price node s) \<le> max_gas_price s
   \<and> max_gas_price (snd (get_gas_price node s)) = max_gas_price s
   \<and> max_gas_price (executor_init cfg urls n) = max_gas_price_gwei cfg * 10 ^ 9
   \<and> (\<forall>b. latest_block node = Inr (Some b) \<and> 0 < b \<and> 3 * b < 2 ^ 53
        \<longrightarrow> get_gas_price node s = (min (3 * b div 2) (max_gas_price s), s))
   \<and> (\<forall>g. (latest_block node = Inr None \<or> latest_block node = Inr (Some 0))
           \<and> node_gas_price node = Inr g
        \<longrightarrow> get_gas_price node s = (min g (max_gas_price s), s))
   \<and> (\<forall>e. latest_block node = Inl e
           \<or> (latest_block node = Inr None \<or> latest_block node = Inr (Some 0))
              \<and> node_gas_price node = Inl e
        \<longrightarrow> fst (get_gas_price node s) = min (30 * 10 ^ 9) (max_gas_price s))
   \<and> tx_max_fee_per_gas (submitted_tx node route s) \<le> max_gas_price s"
proof (intro conjI allI impI)
  show "fst (get_gas_price node s) \<le> max_gas_price s" by (rule get_gas_price_le_cap)
  show "max_gas_price (snd (get_gas_price node s)) = max_gas_price s"
    using get_gas_price_state [of node s "fst (get_gas_price node s)" "snd (get_gas_price node s)"]
    by simp
  show "max_gas_price (executor_init cfg urls n) = max_gas_price_gwei cfg * 10 ^ 9"
    by (simp add: executor_init_def)
  show "tx_max_fee_per_gas (submitted_tx node route s) \<le> max_gas_price s"
    unfolding submitted_tx_max_fee by (rule get_gas_price_le_cap)
next
  fix b assume "latest_block node = Inr (Some b) \<and> 0 < b \<and> 3 * b < 2 ^ 53"
  then show "get_gas_price node s = (min (3 * b div 2) (max_gas_price s), s)"
    by (intro get_gas_price_base_fee) simp_all
next
  fix g assume "(latest_block node = Inr None \<or> latest_block node = Inr (Some 0))
           \<and> node_gas_price node = Inr g"
  then show "get_gas_price node s = (min g (max_gas_price s), s)"
    by (intro get_gas_price_legacy) simp_all
next
  fix e assume "latest_block node = Inl e
           \<or> (latest_block node = Inr None \<or> latest_block node = Inr (Some 0))
              \<and> node_gas_price node = Inl e"
  from get_gas_price_failure [OF this]
  show "fst (get_gas_price node s) = min (30 * 10 ^ 9) (max_gas_price s)" by simp
qed

theorem get_gas_price_capped_witness:
  "fst (get_gas_price base_fee_node (executor_init scenario_config [] 0)) = 1500000000
   \<and> fst (get_gas_price scenario_node (executor_init scenario_config [] 0)) = 1000000000
   \<and> fst (get_gas_price unreachable_node (executor_init scenario_config [] 0)) = 30000000000
   \<and> fst (get_gas_price (scenario_node\<lparr>node_gas_price := Inr (500 * 10 ^ 9)\<rparr>)
            (executor_init scenario_config [] 0)) = 100000000000
   \<and> max_gas_price (executor_init scenario_config [] 0) = 100000000000"
proof -
  let ?s = "executor_init scenario_config [] 0"
  have m: "max_gas_price ?s = 100000000000"
    using get_gas_price_capped [of scenario_node ?s scenario_config "[]" 0]
    by (simp add: scenario_config_def)
  have "latest_block base_fee_node = Inr (Some 1000000000)"
    by (simp add: base_fee_node_def)
  with get_gas_price_capped [of base_fee_node ?s]
  have a: "get_gas_price base_fee_node ?s = (min (3 * 1000000000 div 2) (max_gas_price ?s), ?s)"
    by simp
  have "latest_block scenario_node = Inr None" "node_gas_price scenario_node = Inr 1000000000"
    by (simp_all add: scenario_node_def)
  with get_gas_price_capped [of scenario_node ?s]
  have b: "get_gas_price scenario_node ?s = (min 1000000000 (max_gas_price ?s), ?s)"
    by simp
  have "latest_block unreachable_node = Inl (Raised ''connection refused'')"
    by (simp add: unreachable_node_def)
  with get_gas_price_capped [of unreachable_node ?s]
  have c: "fst (get_gas_price unreachable_node ?s) = min (30 * 10 ^ 9) (max_gas_price ?s)"
    by blast
  let ?n = "scenario_node\<lparr>node_gas_price := Inr (500 * 10 ^ 9)\<rparr>"
  have "latest_block ?n = Inr None" "node_gas_price ?n = Inr 500000000000"
    by (simp_all add: scenario_node_def)
  with get_gas_price_capped [of ?n ?s]
  have d: "get_gas_price ?n ?s = (min 500000000000 (max_gas_price ?s), ?s)"
    by simp
  show ?thesis
    unfolding a b c d unfolding m by simp
qed

text \<open>
  Under the default configuration (cap \<open>100 * 10 ^ 9\<close>) the cancel transaction that
  \<^verbatim>\<open>emergency_stop\<close> signs and sends for a pending entry has \<^verbatim>\<open>maxFeePerGas\<close>
  \<open>150 * 10 ^ 9\<close>.
\<close>

theorem max_fee_above_cap_counterexample:
  "cancel_transaction (executor_init scenario_config [] 43) scenario_pending = Inr scenario_cancel
   \<and> sent (emergency_stop scenario_node
        (\<lambda>t. if t = scenario_cancel then Inr ''signed cancel'' else Inl (Raised ''unknown''))
        [scenario_pending] (executor_init scenario_config [] 43)) = [''signed cancel'']
   \<and> cancel_max_fee_per_gas scenario_cancel = 150000000000
   \<and> max_gas_price (executor_init scenario_config [] 43) = 100000000000
   \<and> max_gas_price_gwei scenario_config * 10 ^ 9 = 100000000000"
proof -
  let ?s = "executor_init scenario_config [] 43"
  have l: "cancel_transaction (log_msg Critical ''EMERGENCY STOP ACTIVATED'' ?s) scenario_pending
      = cancel_transaction ?s scenario_pending"
    by (simp add: cancel_transaction_def log_msg_def)
  have "sent (emergency_stop scenario_node
        (\<lambda>t. if t = scenario_cancel then Inr ''signed cancel'' else Inl (Raised ''unknown''))
        [scenario_pending] ?s) = [''signed cancel'']"
    unfolding emergency_stop_def cancel_pending.simps l scenario_cancel_transaction bind_Inr
    by (simp add: scenario_node_def log_msg_def executor_init_def)
  then show ?thesis
    by (simp add: scenario_cancel_transaction)
      (simp add: scenario_cancel_def executor_init_def scenario_config_def)
qed

section \<open>The GPU enumeration\<close>

text \<open>\<^verbatim>\<open>_calculate_swap_gpu\<close> on finite non-negative floats whose denominator is at least 1:
  no operation overflows and the result is the value of the CPU expression before
  \<^verbatim>\<open>int\<close>.\<close>

lemma swap_gpu_finite:
  assumes a: "0 \<le> a" "a \<le> 2 ^ 256"
    and ri: "0 \<le> ri" "ri \<le> 2 ^ 256"
    and ro: "0 \<le> ro" "ro \<le> 2 ^ 256"
    and fee: "0 \<le> fee" "fee \<le> 1"
    and den: "1 \<le> fl ri + fl (fl a * fl (1 - fee))"
  shows "calculate_swap_gpu (Fin (fl a)) (Fin (fl ri)) (Fin (fl ro)) (Fin fee)
         = Fin (swap_value a ri ro fee)"
proof -
  let ?a = "fl a" and ?ri = "fl ri" and ?ro = "fl ro"
  let ?f = "fl (1 - fee)"
  let ?w = "fl (?a * ?f)"
  let ?n = "fl (?w * ?ro)"
  let ?d = "fl (?ri + ?w)"
  have a1: "0 \<le> ?a" "?a \<le> 2 ^ 256"
    using fl_nonneg [OF a(1)] fl_le_two_power [OF a(2)] by simp_all
  have ri1: "0 \<le> ?ri" "?ri \<le> 2 ^ 256"
    using fl_nonneg [OF ri(1)] fl_le_two_power [OF ri(2)] by simp_all
  have ro1: "0 \<le> ?ro" "?ro \<le> 2 ^ 256"
    using fl_nonneg [OF ro(1)] fl_le_two_power [OF ro(2)] by simp_all
  have f1: "0 \<le> ?f" "?f \<le> 1"
    using fee by (simp_all add: fl_nonneg fl_le_one)
  have af: "0 \<le> ?a * ?f" "?a * ?f \<le> 2 ^ 256"
  proof -
    show "0 \<le> ?a * ?f" using a1(1) f1(1) by simp
    have "?a * ?f \<le> ?a * 1" using f1(2) a1(1) by (rule mult_left_mono)
    with a1(2) show "?a * ?f \<le> 2 ^ 256" by simp
  qed
  have w1: "0 \<le> ?w" "?w \<le> 2 ^ 256"
    using fl_nonneg [OF af(1)] fl_le_two_power [OF af(2)] by simp_all
  have wr: "0 \<le> ?w * ?ro" "?w * ?ro \<le> 2 ^ 512"
  proof -
    show "0 \<le> ?w * ?ro" using w1(1) ro1(1) by simp
    have "?w * ?ro \<le> 2 ^ 256 * 2 ^ 256"
      using w1 ro1 by (intro mult_mono) simp_all
    then show "?w * ?ro \<le> 2 ^ 512" by (simp flip: power_add)
  qed
  have n1: "0 \<le> ?n" "?n \<le> 2 ^ 512"
    using fl_nonneg [OF wr(1)] fl_le_two_power [OF wr(2)] by simp_all
  have s: "1 \<le> ?ri + ?w" "?ri + ?w \<le> 2 ^ 257"
    using den ri1 w1 by simp_all
  have d1: "1 \<le> ?d" "?d \<le> 2 ^ 257"
    using fl_ge_one [OF s(1)] fl_le_two_power [OF s(2)] by simp_all
  have q: "0 \<le> ?n / ?d" "?n / ?d \<le> 2 ^ 512"
  proof -
    show "0 \<le> ?n / ?d" using n1(1) d1(1) by simp
    have "?n / ?d \<le> ?n / 1"
      using d1(1) n1(1) by (intro divide_left_mono) simp_all
    with n1(2) show "?n / ?d \<le> 2 ^ 512" by simp
  qed
  have neg: "- (2 ^ n) \<le> t" if "0 \<le> t" for t :: rat and n :: nat
    using that by (rule order.trans [rotated]) simp
  have e4: "fsub (Fin 1) (Fin fee) = Fin ?f"
  proof -
    have "to_double (1 - fee) = Fin ?f"
      by (rule to_double_bounded [where n = 0]) (use fee in simp_all)
    then show ?thesis by (simp add: fsub_def)
  qed
  have e5: "to_double (?a * ?f) = Fin ?w"
    by (rule to_double_bounded [OF neg [OF af(1)] af(2)]) simp
  have e6: "to_double (?w * ?ro) = Fin ?n"
    by (rule to_double_bounded [OF neg [OF wr(1)] wr(2)]) simp
  have e7: "to_double (?ri + ?w) = Fin ?d"
    by (rule to_double_bounded [OF neg [OF order.trans [OF zero_le_one s(1)]] s(2)]) simp
  have e8: "to_double (?n / ?d) = Fin (fl (?n / ?d))"
    by (rule to_double_bounded [OF neg [OF q(1)] q(2)]) simp
  have nz: "Fin ?d \<noteq> Fin 0" using d1(1) by simp
  show ?thesis
    unfolding calculate_swap_gpu_def swap_value_def Let_def e4 fmul.simps e5 e6 fadd.simps e7
      np_div_def
    using nz by (simp add: e8)
qed

lemma fl_amount: "fl 1000000000000000000 = 1000000000000000000"
  by code_simp

lemma fl_fee: "0 \<le> fl (3 / 1000)" "fl (3 / 1000) \<le> 1"
  by (simp_all add: fl_nonneg fl_le_one)

lemma fl_threshold: "fl 10000000000000000 = 10000000000000000"
  by code_simp

lemma gpu_zero_first:
  "swap_value 1000000000000000000 0 2000000000000000000000000 (fl (3 / 1000))
   = 1999999999999999966445568"
  by code_simp

lemma gpu_zero_first_den:
  "1 \<le> fl 0 + fl (fl 1000000000000000000 * fl (1 - fl (3 / 1000)))"
  by code_simp

lemma gpu_zero_first_float: "fl 1999999999999999966445568 = 1999999999999999966445568"
  by code_simp

lemma gpu_zero_second:
  "swap_value 1999999999999999966445568 1000000000000000000000 2100000000000000000000000
     (fl (3 / 1000)) = 2098947368421052832022528"
  by code_simp

lemma gpu_zero_profit:
  "fl (2098947368421052832022528 - 1000000000000000000) = 2098946368421052956016640"
  by code_simp

lemma gpu_zero_net:
  "fl (2098946368421052956016640 - 2000000) = 2098946368421052956016640"
  by code_simp

lemma gpu_threshold: "float_of_int 10000000000000000 = Inr (Fin 10000000000000000)"
  using float_of_int_bounded [of 10000000000000000 64] by (simp add: fl_threshold)

lemma gpu_route_above:
  assumes "10000000000000000 < p" "p \<le> 2 ^ 512"
  shows "gpu_route gpu_config now (weth # toks) (Fin p)
         = Inr [gpu_cell_route (py_trunc p) (py_trunc (fl (p - 2000000))) now]"
proof -
  have "- (2 ^ 512) \<le> p - 2000000" using assms(1) by simp
  moreover have "p - 2000000 \<le> 2 ^ 512" using assms(2) by simp
  ultimately have "to_double (p - 2000000) = Fin (fl (p - 2000000))"
    by (rule to_double_bounded) simp
  then have s: "fsub (Fin p) (Fin 2000000) = Fin (fl (p - 2000000))"
    by (simp add: fsub_def)
  have g: "fgt (Fin p) (Fin 10000000000000000)" using assms(1) by simp
  show ?thesis
    unfolding gpu_route_def
    using g by (simp add: gpu_config_def gpu_threshold s gpu_cell_route_def dex_configs_def)
qed

lemma gpu_route_below:
  assumes "p \<le> 10000000000000000"
  shows "gpu_route gpu_config now toks (Fin p) = Inr []"
  using assms by (simp add: gpu_route_def gpu_config_def gpu_threshold)

lemma lit_fee: "lit (3 / 1000) = Fin (fl (3 / 1000))"
  by (rule lit_unit) simp_all

lemma float_reserves:
  "float_of_int 1000000000000000000000 = Inr (Fin (fl 1000000000000000000000))"
  "float_of_int 2000000000000000000000000 = Inr (Fin (fl 2000000000000000000000000))"
  "float_of_int 2100000000000000000000000 = Inr (Fin (fl 2100000000000000000000000))"
  using float_of_int_bounded [of 1000000000000000000000 256]
    float_of_int_bounded [of 2000000000000000000000000 256]
    float_of_int_bounded [of 2100000000000000000000000 256]
  by simp_all

lemma pool_row_b:
  "pool_row pool_b = Inr (Fin (fl 2100000000000000000000000), Fin (fl 1000000000000000000000),
     Fin (fl (3 / 1000)))"
  by (simp add: pool_row_def pool_b_def get_or_def float_reserves lit_fee)

lemma pool_row_zero:
  "pool_row pool_zero = Inr (Fin 0, Fin (fl 2000000000000000000000000), Fin (fl (3 / 1000)))"
  by (simp add: pool_row_def pool_zero_def get_or_def float_reserves lit_fee)

lemma gpu_swap_zero_first:
  "calculate_swap_gpu (Fin 1000000000000000000) (Fin 0) (Fin (fl 2000000000000000000000000))
     (Fin (fl (3 / 1000))) = Fin 1999999999999999966445568"
  using swap_gpu_finite [of 1000000000000000000 0 2000000000000000000000000 "fl (3 / 1000)"]
    gpu_zero_first_den
  by (simp add: fl_fee fl_amount gpu_zero_first)

lemma gpu_swap_zero_second:
  "calculate_swap_gpu (Fin 1999999999999999966445568) (Fin (fl 1000000000000000000000))
     (Fin (fl 2100000000000000000000000)) (Fin (fl (3 / 1000))) = Fin 2098947368421052832022528"
proof -
  have "(1::rat) \<le> 1000000000000000000000" by simp
  then have "1 \<le> fl 1000000000000000000000" by (rule fl_ge_one)
  moreover have "0 \<le> fl (fl 1999999999999999966445568 * fl (1 - fl (3 / 1000)))"
    by (intro fl_nonneg mult_nonneg_nonneg) (simp_all add: fl_le_one)
  ultimately have "1 \<le> fl 1000000000000000000000
      + fl (fl 1999999999999999966445568 * fl (1 - fl (3 / 1000)))" by linarith
  with swap_gpu_finite [of 1999999999999999966445568 1000000000000000000000
      2100000000000000000000000 "fl (3 / 1000)"]
  show ?thesis
    by (simp add: fl_fee gpu_zero_first_float gpu_zero_second)
qed

lemma gpu_cell_zero:
  "gpu_profit [(Fin 0, Fin (fl 2000000000000000000000000), Fin (fl (3 / 1000))),
               (Fin (fl 2100000000000000000000000), Fin (fl 1000000000000000000000),
                Fin (fl (3 / 1000)))] 0 (Suc 0)
   = Fin 2098946368421052956016640"
proof -
  have "to_double (2098947368421052832022528 - 1000000000000000000)
      = Fin (fl (2098947368421052832022528 - 1000000000000000000))"
    by (rule to_double_bounded [where n = 256]) simp_all
  then have "fsub (Fin 2098947368421052832022528) (Fin 1000000000000000000)
      = Fin 2098946368421052956016640"
    unfolding gpu_zero_profit by (simp add: fsub_def)
  then show ?thesis
    by (simp add: gpu_profit_def gpu_swap_zero_first gpu_swap_zero_second)
qed

lemma gpu_b_first:
  "swap_value 1000000000000000000 2100000000000000000000000 1000000000000000000000
     (fl (3 / 1000)) = 949523358726291 / 2"
  by code_simp

lemma gpu_b_first_float: "fl (949523358726291 / 2) = 949523358726291 / 2"
  by code_simp

lemma gpu_zero_back:
  "swap_value (949523358726291 / 2) 2000000000000000000000000 0 (fl (3 / 1000)) = 0"
  by code_simp

lemma gpu_den:
  assumes "1 \<le> ri" "0 \<le> a"
  shows "1 \<le> fl ri + fl (fl a * fl (1 - fl (3 / 1000)))"
proof -
  have "1 \<le> fl ri" using assms(1) by (rule fl_ge_one)
  moreover have "0 \<le> fl (fl a * fl (1 - fl (3 / 1000)))"
    using assms(2) by (intro fl_nonneg mult_nonneg_nonneg) (simp_all add: fl_le_one)
  ultimately show ?thesis by linarith
qed

lemma gpu_swap_b_first:
  "calculate_swap_gpu (Fin 1000000000000000000) (Fin (fl 2100000000000000000000000))
     (Fin (fl 1000000000000000000000)) (Fin (fl (3 / 1000))) = Fin (949523358726291 / 2)"
  using swap_gpu_finite [of 1000000000000000000 2100000000000000000000000
      1000000000000000000000 "fl (3 / 1000)"]
    gpu_den [of 2100000000000000000000000 1000000000000000000]
  by (simp add: fl_fee fl_amount gpu_b_first)

lemma gpu_swap_zero_back:
  "calculate_swap_gpu (Fin (949523358726291 / 2)) (Fin (fl 2000000000000000000000000))
     (Fin 0) (Fin (fl (3 / 1000))) = Fin 0"
  using swap_gpu_finite [of "949523358726291 / 2" 2000000000000000000000000 0 "fl (3 / 1000)"]
    gpu_den [of 2000000000000000000000000 "949523358726291 / 2"]
  by (simp add: fl_fee gpu_b_first_float gpu_zero_back)

lemma gpu_cell_zero_back:
  "gpu_profit [(Fin 0, Fin (fl 2000000000000000000000000), Fin (fl (3 / 1000))),
               (Fin (fl 2100000000000000000000000), Fin (fl 1000000000000000000000),
                Fin (fl (3 / 1000)))] (Suc 0) 0
   = Fin (- 1000000000000000000)"
proof -
  have "to_double (- 1000000000000000000) = Fin (fl (- 1000000000000000000))"
    by (rule to_double_bounded [where n = 256]) simp_all
  then have "fsub (Fin 0) (Fin 1000000000000000000) = Fin (- 1000000000000000000)"
    by (simp add: fsub_def fl_minus fl_amount)
  then show ?thesis
    by (simp add: gpu_profit_def gpu_swap_b_first gpu_swap_zero_back)
qed

lemma gpu_diagonal_cell: "gpu_profit rows i i = Fin 0"
  by (simp add: gpu_profit_def)

lemma zero_reserve_gpu:
  "calculate_routes_gpu True gpu_config k now [weth] zero_reserve_pools
   = Inr [gpu_cell_route 2098946368421052956016640 2098946368421052956016640 now]"
proof -
  let ?rows = "[(Fin 0, Fin (fl 2000000000000000000000000), Fin (fl (3 / 1000))),
               (Fin (fl 2100000000000000000000000), Fin (fl 1000000000000000000000),
                Fin (fl (3 / 1000)))]"
  have rows: "pool_array zero_reserve_pools = Inr ?rows"
    by (simp add: pool_array_def zero_reserve_pools_def pool_row_zero pool_row_b)
  have u: "[0..<length ?rows] = [0, Suc 0]" by (simp add: upt_rec)
  have a: "gpu_route gpu_config now [weth] (Fin 2098946368421052956016640)
      = Inr [gpu_cell_route (py_trunc 2098946368421052956016640)
               (py_trunc (fl (2098946368421052956016640 - 2000000))) now]"
    by (rule gpu_route_above) simp_all
  have t: "py_trunc 2098946368421052956016640 = 2098946368421052956016640"
    by (simp add: py_trunc_def)
  have a': "gpu_route gpu_config now [weth] (Fin 2098946368421052956016640)
      = Inr [gpu_cell_route 2098946368421052956016640 2098946368421052956016640 now]"
    unfolding a gpu_zero_net t ..
  have b: "gpu_route gpu_config now [weth] (Fin (- 1000000000000000000)) = Inr []"
    by (rule gpu_route_below) simp
  have c: "gpu_route gpu_config now [weth] (Fin 0) = Inr []"
    by (rule gpu_route_below) simp
  show ?thesis
    unfolding calculate_routes_gpu_def rows bind_Inr Let_def u
    by (simp add: gpu_diagonal_cell gpu_cell_zero gpu_cell_zero_back a' b c)
qed

lemma check_zero_b:
  "check_arbitrage_opportunity k now weth pool_zero pool_b
     (snd (dex_configs ! 0)) (snd (dex_configs ! 2)) = Inr None"
proof -
  have "calculate_swap_output 0 2100000000000000000000000 1000000000000000000000
     (lit (3 / 1000)) = Inr 0"
    using swap_output_lit [of 0 2100000000000000000000000 1000000000000000000000 "3 / 1000"]
    by (simp add: swap_value_def py_trunc_def)
  then show ?thesis
    by (simp add: check_arbitrage_opportunity_def pool_zero_def pool_b_def get_or_def dex_fee_v2
      swap_output_zero_reserve_in weth_def usdc_def Let_def)
qed

lemma check_b_zero:
  "check_arbitrage_opportunity k now weth pool_b pool_zero
     (snd (dex_configs ! 2)) (snd (dex_configs ! 0)) = Inr None"
  by (simp add: check_arbitrage_opportunity_def pool_zero_def pool_b_def get_or_def dex_fee_v2
      swap_b1 swap_output_zero_reserve_out weth_def usdc_def Let_def)

lemma zero_reserve_cpu:
  "calculate_routes_cpu k now [weth] zero_reserve_pools = Inr []"
proof -
  have t: "Some weth \<in> set [token0 pool_zero, token1 pool_zero]"
    "Some weth \<in> set [token0 pool_b, token1 pool_b]"
    by (simp_all add: pool_zero_def pool_b_def)
  show ?thesis
    unfolding calculate_routes_cpu_def zero_reserve_pools_def
    using t by (simp add: dex_config_of_v2 check_zero_b check_b_zero)
qed

text \<open>
  C9. \<^verbatim>\<open>_calculate_swap_output\<close> returns 0 for a zero reserve, and the CPU enumeration
  yields no route for the pool with reserves \<open>(0, 2 * 10 ^ 24)\<close>. The GPU enumeration has
  no such guard in \<^verbatim>\<open>_calculate_swap_gpu\<close>: for the same pools the first swap through the
  empty side returns the whole other reserve, the cell of the profit matrix is about
  \<open>2.1 * 10 ^ 24\<close>, and \<^verbatim>\<open>analyze_block\<close> publishes a route for it.
\<close>

theorem zero_reserve_gpu_route:
  "zero_reserve pool_zero
   \<and> calculate_swap_output 1000000000000000000 0 2000000000000000000000000 (lit (3 / 1000)) = Inr 0
   \<and> calculate_swap_gpu (Fin 1000000000000000000) (Fin 0) (Fin (fl 2000000000000000000000000))
        (Fin (fl (3 / 1000))) = Fin 1999999999999999966445568
   \<and> calculate_routes_cpu (\<lambda>a. a) 0 [weth] zero_reserve_pools = Inr []
   \<and> calculate_routes_gpu True gpu_config (\<lambda>a. a) 0 [weth] zero_reserve_pools
      = Inr [gpu_cell_route 2098946368421052956016640 2098946368421052956016640 0]
   \<and> analyze_block (\<lambda>a. a) 0 0 zero_reserve_pools (scanner_init gpu_config True [weth])
      = Inr (Some ((scanner_init gpu_config True [weth])
          \<lparr>profitable_routes := \<lparr>maxsize = 0, items =
              [gpu_cell_route 2098946368421052956016640 2098946368421052956016640 0]\<rparr>,
           scanner_log := [(Info, ''Found profitable routes'')]\<rparr>))"
proof -
  let ?s = "scanner_init gpu_config True [weth]"
  let ?r = "gpu_cell_route 2098946368421052956016640 2098946368421052956016640 0"
  have z: "zero_reserve pool_zero" by (simp add: zero_reserve_def pool_zero_def get_or_def)
  have c: "calculate_arbitrage_routes (scanner_gpu_available ?s) (scanner_config ?s) (\<lambda>a. a) 0
             (scanner_tokens ?s) zero_reserve_pools = Inr [?r]"
    using zero_reserve_gpu [of "\<lambda>a. a" 0]
    by (simp add: calculate_arbitrage_routes_def scanner_init_def gpu_config_def)
  have f: "filter (\<lambda>r. min_profit_threshold (scanner_config ?s) < net_profit r) [?r] = [?r]"
    by (simp add: scanner_init_def gpu_config_def gpu_cell_route_def)
  have p: "put_all (profitable_routes ?s) [?r] = Some \<lparr>maxsize = 0, items = [?r]\<rparr>"
    by (subst put_all_unbounded) (simp_all add: scanner_init_channel)
  have "analyze_block (\<lambda>a. a) 0 0 zero_reserve_pools ?s
     = Inr (Some (?s\<lparr>profitable_routes := \<lparr>maxsize = 0, items = [?r]\<rparr>,
         scanner_log := scanner_log ?s @ [(Info, ''Found profitable routes'')] @ []\<rparr>))"
    unfolding analyze_block_def c bind_Inr Let_def f p by simp
  then have a: "analyze_block (\<lambda>a. a) 0 0 zero_reserve_pools ?s
     = Inr (Some (?s\<lparr>profitable_routes := \<lparr>maxsize = 0, items = [?r]\<rparr>,
         scanner_log := [(Info, ''Found profitable routes'')]\<rparr>))"
    by (simp add: scanner_init_def)
  show ?thesis
    using z a zero_reserve_cpu [of "\<lambda>a. a" 0] zero_reserve_gpu [of "\<lambda>a. a" 0]
      gpu_swap_zero_first
    by (simp add: swap_output_zero_reserve_in)
qed



















lemma fgt_to_double_30: "fgt (to_double d) (Fin 30) \<longleftrightarrow> 30 < fl d"
proof -
  define B :: rat where "B = 2 ^ 1024"
  have "(2::rat) ^ 5 < 2 ^ 1024" by (rule power_strict_increasing) simp_all
  then have B: "30 < B" unfolding B_def by (rule order.strict_trans [rotated]) simp
  have t: "to_double d = (if B \<le> fl d then PInf else if fl d \<le> - B then NInf else Fin (fl d))"
    unfolding to_double_def Let_def B_def ..
  consider "B \<le> fl d" | "fl d \<le> - B" | "\<not> B \<le> fl d" "\<not> fl d \<le> - B" by blast
  then show ?thesis
  proof cases
    case 1
    then have "30 < fl d" using B by linarith
    with 1 show ?thesis unfolding t by simp
  next
    case 2
    then have n: "\<not> 30 < fl d" "\<not> B \<le> fl d" using B by linarith+
    with 2 show ?thesis unfolding t by simp
  next
    case 3
    then show ?thesis unfolding t by simp
  qed
qed

lemma fl_thirty: "fl 30 = 30"
  by code_simp

lemma fl_above_thirty: "fl (30 + 2 powi (- 48)) = 30 + 2 powi (- 48)"
proof (rule fl_grid [where m = "30 * 2 ^ 48 + 1" and k = "- 48"])
  have p: "(2::rat) powi (- 48) * 2 ^ 48 = 1"
    by (simp add: power_int_minus)
  show e: "30 + 2 powi (- 48) = rat_of_int (30 * 2 ^ 48 + 1) * 2 powi (- 48)"
    by (simp add: algebra_simps power_int_minus)
  have u: "(0::rat) < 2 powi (- 48)" "(2::rat) powi (- 48) \<le> 1"
    by (simp_all add: power_int_minus inverse_le_1_iff)
  have "ilog2 (30 + 2 powi (- 48)) = 4"
  proof (rule ilog2_unique)
    show "(2::rat) powi 4 \<le> 30 + 2 powi (- 48)" using u by simp
    show "30 + 2 powi (- 48) < (2::rat) powi (4 + 1)" using u by simp
  qed
  moreover have "\<bar>30 + 2 powi (- 48) :: rat\<bar> = 30 + 2 powi (- 48)" using u by simp
  ultimately show "quantum (30 + 2 powi (- 48)) \<le> - 48"
    by (simp add: quantum_def)
qed

lemma grid_step:
  fixes u :: rat
  assumes u: "0 < u" and x: "x = of_int a * u" and y: "y = of_int b * u"
    and z: "z = of_int e * u" and lt: "z < x - y"
  shows "z + u \<le> x - y"
proof -
  have d: "x - y = of_int (a - b) * u" unfolding x y by (simp add: algebra_simps)
  from lt have "of_int e * u < of_int (a - b) * u" unfolding d z .
  then have "(of_int e :: rat) < of_int (a - b)"
    using u by (simp only: mult_less_cancel_right_pos)
  then have "e < a - b" by (simp only: of_int_less_iff)
  then have "e + 1 \<le> a - b" by simp
  then have "(of_int (e + 1) :: rat) \<le> of_int (a - b)" by (simp only: of_int_le_iff)
  then have "of_int (e + 1) * u \<le> of_int (a - b) * u"
    using u by (simp only: mult_le_cancel_right_pos)
  moreover have "of_int (e + 1) * u = z + u" unfolding z by (simp add: algebra_simps)
  ultimately show ?thesis unfolding d by simp
qed

lemma two_powi_48: "of_int i = of_int (i * 2 ^ 48) * (2::rat) powi (- 48)"
proof -
  have "(2::rat) powi (- 48) * 2 ^ 48 = 1" by (simp add: power_int_minus)
  then have "of_int i * ((2::rat) powi (- 48) * 2 ^ 48) = of_int i" by (simp only: mult_1_right)
  then show ?thesis by (simp only: of_int_mult of_int_power of_int_numeral mult_ac)
qed

section \<open>Route validation\<close>

text \<open>For a float reading of the clock and an integer timestamp that is not negative, an age
  above 30 is above it by at least one unit in the last place of 30.\<close>

lemma age_grid:
  assumes f: "fl now = now" and d: "30 < now - of_int ts" and ts: "0 \<le> ts"
  shows "30 + 2 powi (- 48) \<le> now - of_int ts"
proof -
  let ?q = "quantum now"
  define m where "m = round_half_even (now / 2 powi ?q)"
  have "(0::rat) \<le> of_int ts" using ts by simp
  with d have n30: "30 < now" by linarith
  then have pos: "0 < now" by simp
  have "(2::rat) powi 4 \<le> now" using n30 by simp
  then have "4 \<le> ilog2 now" by (rule ilog2_ge)
  with quantum_ge(2) [of now] pos have q: "- 48 \<le> ?q" by simp
  have now: "now = of_int m * 2 powi ?q"
    using fl_pos_eq [OF pos] f unfolding m_def by simp
  have "(2::rat) powi ?q = 2 powi (?q + 48) * 2 powi (- 48)"
    using two_powi_add [of "?q + 48" "- 48"] by (simp only: add_uminus_conv_diff add_diff_cancel)
  also have "(2::rat) powi (?q + 48) = of_int (2 ^ nat (?q + 48))"
    using q by (intro two_powi_of_int) simp
  finally have pq: "(2::rat) powi ?q = of_int (2 ^ nat (?q + 48)) * 2 powi (- 48)" .
  have x: "now = of_int (m * 2 ^ nat (?q + 48)) * 2 powi (- 48)"
    by (subst now, subst pq) (simp only: of_int_mult mult.assoc)
  have y: "of_int ts = of_int (ts * 2 ^ 48) * (2::rat) powi (- 48)" by (rule two_powi_48)
  have z: "(30::rat) = of_int (30 * 2 ^ 48) * 2 powi (- 48)"
    using two_powi_48 [of 30] by (simp only: of_int_numeral)
  have u: "(0::rat) < 2 powi (- 48)" by simp
  from grid_step [OF u x y z d] show ?thesis .
qed

lemma age_test:
  assumes f: "fl now = now" and ts: "0 \<le> ts"
  shows "fgt (fsub (Fin now) (Fin (of_int ts))) (Fin 30) \<longleftrightarrow> 30 < now - of_int ts"
proof -
  have "fsub (Fin now) (Fin (of_int ts)) = to_double (now - of_int ts)"
    by (simp add: fsub_def)
  moreover have "30 < fl (now - of_int ts) \<longleftrightarrow> 30 < now - of_int ts"
  proof
    assume a: "30 < fl (now - of_int ts)"
    show "30 < now - of_int ts"
    proof (rule ccontr)
      assume "\<not> 30 < now - of_int ts"
      then have "now - of_int ts \<le> 30" by simp
      from fl_mono [OF this] a show False by (simp add: fl_thirty)
    qed
  next
    assume "30 < now - of_int ts"
    from fl_mono [OF age_grid [OF f this ts]]
    have "30 + 2 powi (- 48) \<le> fl (now - of_int ts)" by (simp only: fl_above_thirty)
    moreover have "(0::rat) < 2 powi (- 48)" by simp
    ultimately show "30 < fl (now - of_int ts)" by linarith
  qed
  ultimately show ?thesis by (simp only: fgt_to_double_30)
qed

lemma timestamp_float:
  assumes "0 \<le> ts" "ts \<le> 2 ^ 53"
  shows "float_of_int ts = Inr (Fin (of_int ts))"
  using assms by (intro float_of_int_exact) simp

lemma validate_route_accepted:
  assumes clock: "fl now = now" and unix: "0 \<le> timestamp route" "timestamp route \<le> 2 ^ 53"
  shows "validate_route node now route s =
     (if net_profit route < min_profit_threshold (executor_config s)
      then (False, log_msg Debug ''Profit too low'' s)
      else if 30 < now - of_int (timestamp route)
      then (False, log_msg Debug ''Route too old'' s)
      else case balance_of node (token route) of
             Inl e \<Rightarrow> (False, log_msg Debug ''Token contract validation failed'' s)
           | Inr b \<Rightarrow>
               (case estimate_call_gas node route of
                  Inl e \<Rightarrow> (False, log_msg Debug ''Simulation failed'' s)
                | Inr estimated_gas \<Rightarrow>
                    if 800000 < estimated_gas
                    then (False, log_msg Debug ''Gas estimate too high'' s)
                    else (True, s)))"
  unfolding validate_route_def timestamp_float [OF unix] sum.case age_test [OF clock unix(1)] ..

text \<open>
  C6. \<open>now\<close> is the reading of \<^verbatim>\<open>time.time()\<close>, a float, and the timestamp of the route a
  Unix time (an integer from 0 to \<open>2 ^ 53\<close>). \<^verbatim>\<open>validate_route\<close> accepts the route exactly
  when \<open>net_profit \<ge> min_profit_threshold\<close>, the age \<open>now - timestamp\<close> is at most 30
  seconds, the \<^verbatim>\<open>balanceOf\<close> call on the token succeeds and the gas estimate of
  \<^verbatim>\<open>executeArbitrage\<close> succeeds with at most 800000. An accepted route leaves the executor
  unchanged; a rejected one adds one debug entry to the log and changes nothing else, and
  the submit loop adds one more debug entry. A route of age 31 is rejected, as too old when
  its profit reaches the threshold.
\<close>

theorem validate_route_accepts_iff:
  assumes clock: "fl now = now" and unix: "0 \<le> timestamp route" "timestamp route \<le> 2 ^ 53"
  shows "(fst (validate_route node now route s) \<longleftrightarrow>
            min_profit_threshold (executor_config s) \<le> net_profit route
            \<and> now - of_int (timestamp route) \<le> 30
            \<and> (\<exists>b. balance_of node (token route) = Inr b)
            \<and> (\<exists>g. estimate_call_gas node route = Inr g \<and> g \<le> 800000))
         \<and> (fst (validate_route node now route s) \<longrightarrow> snd (validate_route node now route s) = s)
         \<and> (\<not> fst (validate_route node now route s) \<longrightarrow>
              (\<exists>msg. snd (validate_route node now route s) = log_msg Debug msg s
                 \<and> execute_route node now route s
                     = log_msg Debug ''Route validation failed'' (log_msg Debug msg s)))
         \<and> (now - of_int (timestamp route) = 31 \<longrightarrow> \<not> fst (validate_route node now route s))
         \<and> (now - of_int (timestamp route) = 31
              \<and> min_profit_threshold (executor_config s) \<le> net_profit route \<longrightarrow>
              validate_route node now route s = (False, log_msg Debug ''Route too old'' s))"
proof -
  note v = validate_route_accepted [OF clock unix, of node s]
  have r1: "fst (validate_route node now route s) \<longleftrightarrow>
            min_profit_threshold (executor_config s) \<le> net_profit route
            \<and> now - of_int (timestamp route) \<le> 30
            \<and> (\<exists>b. balance_of node (token route) = Inr b)
            \<and> (\<exists>g. estimate_call_gas node route = Inr g \<and> g \<le> 800000)"
    unfolding v by (auto split: sum.splits)
  have r2: "fst (validate_route node now route s) \<longrightarrow> snd (validate_route node now route s) = s"
    unfolding v by (auto split: sum.splits)
  have r0: "\<not> fst (validate_route node now route s) \<longrightarrow>
              (\<exists>msg. snd (validate_route node now route s) = log_msg Debug msg s)"
    unfolding v by (auto split: sum.splits)
  have r3: "\<not> fst (validate_route node now route s) \<longrightarrow>
              (\<exists>msg. snd (validate_route node now route s) = log_msg Debug msg s
                 \<and> execute_route node now route s
                     = log_msg Debug ''Route validation failed'' (log_msg Debug msg s))"
  proof
    assume n: "\<not> fst (validate_route node now route s)"
    with r0 obtain msg where m: "snd (validate_route node now route s) = log_msg Debug msg s"
      by blast
    from n m have "validate_route node now route s = (False, log_msg Debug msg s)"
      by (cases "validate_route node now route s") simp
    then have "execute_route node now route s
        = log_msg Debug ''Route validation failed'' (log_msg Debug msg s)"
      by (simp add: execute_route_def)
    with m show "\<exists>msg. snd (validate_route node now route s) = log_msg Debug msg s
                 \<and> execute_route node now route s
                     = log_msg Debug ''Route validation failed'' (log_msg Debug msg s)"
      by blast
  qed
  have r4: "now - of_int (timestamp route) = 31 \<longrightarrow> \<not> fst (validate_route node now route s)"
    using r1 by simp
  have r5: "now - of_int (timestamp route) = 31
              \<and> min_profit_threshold (executor_config s) \<le> net_profit route \<longrightarrow>
              validate_route node now route s = (False, log_msg Debug ''Route too old'' s)"
    unfolding v by simp
  from r1 r2 r3 r4 r5 show ?thesis by blast
qed

lemma fl_clock: "fl 1700000030 = 1700000030" "fl 1700000031 = 1700000031"
  by code_simp+

theorem validate_route_accepts_iff_witness:
  "validate_route scenario_node 1700000030 (scenario_route 1000000000000000000 1700000000)
     (executor_init scenario_config [] 42)
   = (True, executor_init scenario_config [] 42)
   \<and> validate_route scenario_node 1700000031 (scenario_route 1000000000000000000 1700000000)
     (executor_init scenario_config [] 42)
   = (False, log_msg Debug ''Route too old'' (executor_init scenario_config [] 42))
   \<and> execute_route scenario_node 1700000031 (scenario_route 1000000000000000000 1700000000)
     (executor_init scenario_config [] 42)
   = log_msg Debug ''Route validation failed''
       (log_msg Debug ''Route too old'' (executor_init scenario_config [] 42))"
proof -
  let ?r = "scenario_route 1000000000000000000 1700000000"
  let ?s = "executor_init scenario_config [] 42"
  have t: "timestamp ?r = 1700000000" "net_profit ?r = 999999999997000000"
    by (simp_all add: scenario_route_def)
  have c: "min_profit_threshold (executor_config ?s) = 10000000000000000"
    by (simp add: executor_init_def scenario_config_def)
  have n: "balance_of scenario_node (token ?r) = Inr 0"
    "estimate_call_gas scenario_node ?r = Inr 300000"
    by (simp_all add: scenario_node_def)
  have u: "0 \<le> timestamp ?r" "timestamp ?r \<le> 2 ^ 53" by (simp_all add: t)
  from validate_route_accepts_iff [OF fl_clock(1) u, of scenario_node ?s]
  have "fst (validate_route scenario_node 1700000030 ?r ?s)
      \<and> (fst (validate_route scenario_node 1700000030 ?r ?s)
           \<longrightarrow> snd (validate_route scenario_node 1700000030 ?r ?s) = ?s)"
    by (simp add: t c n)
  then have a: "validate_route scenario_node 1700000030 ?r ?s = (True, ?s)"
    by (cases "validate_route scenario_node 1700000030 ?r ?s") simp
  from validate_route_accepts_iff [OF fl_clock(2) u, of scenario_node ?s]
  have b: "validate_route scenario_node 1700000031 ?r ?s
      = (False, log_msg Debug ''Route too old'' ?s)"
    by (simp add: t c)
  from validate_route_accepts_iff [OF fl_clock(2) u, of scenario_node ?s] b
  have "execute_route scenario_node 1700000031 ?r ?s
      = log_msg Debug ''Route validation failed'' (log_msg Debug ''Route too old'' ?s)"
    by (simp add: execute_route_def)
  with a b show ?thesis by simp
qed

end
